theory Spec2Isabelle
  imports Complex_Main "HOL-Library.Char_ord" "HOL-Library.List_Lexorder"
begin

section \<open>Python values\<close>

text \<open>
  The rows handled by \<^verbatim>\<open>load_data.py\<close> and \<^verbatim>\<open>check_consistency.py\<close> are dynamically
  typed: a column holds \<^verbatim>\<open>None\<close>, a \<^verbatim>\<open>str\<close>, an \<^verbatim>\<open>int\<close>, a \<^verbatim>\<open>float\<close> or a
  \<^verbatim>\<open>datetime\<close>. A \<^verbatim>\<open>datetime\<close> is represented by the number of microseconds its wall-clock
  fields lie after 0001-01-01 00:00:00, together with the UTC offset of its \<^verbatim>\<open>tzinfo\<close> in
  minutes (\<open>None\<close> for a naive value). Finite floats are represented by reals; strings are
  ASCII.
\<close>

datatype datetime = DateTime (wall_micros: int) (utcoffset: "int option")

datatype pyval = PNone | PStr string | PInt int | PFloat real | PDateTime datetime

datatype assertion =
    Count_mismatch string
  | Content_row_count_mismatch string
  | Field_mismatch pyval string pyval pyval

datatype py_error = AssertionError assertion | ValueError | KeyError string | IndexError string

text \<open>Python's \<^verbatim>\<open>==\<close> on these values. A naive and an aware datetime are never equal;
  two aware datetimes are compared as instants.\<close>

definition datetime_eq :: "datetime \<Rightarrow> datetime \<Rightarrow> bool" where
  "datetime_eq a b =
     (case (utcoffset a, utcoffset b) of
        (None, None) \<Rightarrow> wall_micros a = wall_micros b
      | (Some x, Some y) \<Rightarrow> wall_micros a - x * 60000000 = wall_micros b - y * 60000000
      | _ \<Rightarrow> False)"

fun py_eq :: "pyval \<Rightarrow> pyval \<Rightarrow> bool" where
  "py_eq PNone PNone = True"
| "py_eq (PStr a) (PStr b) = (a = b)"
| "py_eq (PInt a) (PInt b) = (a = b)"
| "py_eq (PInt a) (PFloat b) = (of_int a = b)"
| "py_eq (PFloat a) (PInt b) = (a = of_int b)"
| "py_eq (PFloat a) (PFloat b) = (a = b)"
| "py_eq (PDateTime a) (PDateTime b) = datetime_eq a b"
| "py_eq _ _ = False"

text \<open>Truth value testing, as used by \<^verbatim>\<open>x or y\<close>.\<close>

fun truthy :: "pyval \<Rightarrow> bool" where
  "truthy PNone = False"
| "truthy (PStr s) = (s \<noteq> [])"
| "truthy (PInt i) = (i \<noteq> 0)"
| "truthy (PFloat f) = (f \<noteq> 0)"
| "truthy (PDateTime d) = True"

section \<open>The datetime constructor and strptime\<close>

definition is_leap :: "int \<Rightarrow> bool" where
  "is_leap y = (if y mod 400 = 0 then True else if y mod 100 = 0 then False else y mod 4 = 0)"

definition days_in_month :: "int \<Rightarrow> int \<Rightarrow> int" where
  "days_in_month y m =
     (if m = 2 then (if is_leap y then 29 else 28)
      else if m = 4 \<or> m = 6 \<or> m = 9 \<or> m = 11 then 30 else 31)"

definition days_before_year :: "int \<Rightarrow> int" where
  "days_before_year y = (y - 1) * 365 + (y - 1) div 4 - (y - 1) div 100 + (y - 1) div 400"

definition days_before_month :: "int \<Rightarrow> int \<Rightarrow> int" where
  "days_before_month y m = sum_list (map (days_in_month y) [1 .. m - 1])"

text \<open>\<^verbatim>\<open>datetime(year, month, day, hour, minute, second, microsecond, tzinfo)\<close>: a field out
  of range raises \<^verbatim>\<open>ValueError\<close>.\<close>

definition datetime_new ::
  "int \<Rightarrow> int \<Rightarrow> int \<Rightarrow> int \<Rightarrow> int \<Rightarrow> int \<Rightarrow> int \<Rightarrow> int option \<Rightarrow> py_error + datetime" where
  "datetime_new y m d hh mm ss us tz =
     (if 1 \<le> y \<and> y \<le> 9999 \<and> 1 \<le> m \<and> m \<le> 12 \<and> 1 \<le> d \<and> d \<le> days_in_month y m
         \<and> 0 \<le> hh \<and> hh < 24 \<and> 0 \<le> mm \<and> mm < 60 \<and> 0 \<le> ss \<and> ss < 60
         \<and> 0 \<le> us \<and> us < 1000000
      then Inr (DateTime
        (((((days_before_year y + days_before_month y m + (d - 1)) * 24 + hh) * 60 + mm) * 60
            + ss) * 1000000 + us) tz)
      else Inl ValueError)"

definition is_digit :: "char \<Rightarrow> bool" where
  "is_digit c = (CHR ''0'' \<le> c \<and> c \<le> CHR ''9'')"

text \<open>The characters the regular expression \<^verbatim>\<open>\s\<close> matches in an ASCII string: the
  space, 0x09 to 0x0D and the separators 0x1C to 0x1F.\<close>

definition is_space :: "char \<Rightarrow> bool" where
  "is_space c = (c = CHR '' '' \<or> c = CHR 0x09 \<or> c = CHR 0x0A \<or> c = CHR 0x0B
                 \<or> c = CHR 0x0C \<or> c = CHR 0x0D \<or> c = CHR 0x1C \<or> c = CHR 0x1D
                 \<or> c = CHR 0x1E \<or> c = CHR 0x1F)"

definition int_of_digits :: "string \<Rightarrow> int" where
  "int_of_digits ds = foldl (\<lambda>a c. 10 * a + (of_char c - 48)) 0 ds"

text \<open>
  \<^verbatim>\<open>strptime\<close> turns the format \<^verbatim>\<open>'%Y-%m-%d %H:%M:%S.%f'\<close> into the regular expression
  \<^verbatim>\<open>(\d\d\d\d)-(1[0-2]|0[1-9]|[1-9])-(3[0-1]|[1-2]\d|0[1-9]|[1-9]| [1-9])\s+\<close>
  \<^verbatim>\<open>(2[0-3]|[0-1]\d|\d):([0-5]\d|\d):(6[0-1]|[0-5]\d|\d)\.([0-9]{1,6})\<close>
  and requires it to match the whole string. Every numeric group is followed by a
  character that is not a digit, so a group matches exactly when the run of digits at its
  position has one of the listed shapes: \<open>digit_field lo hi s\<close> reads a run of one or two
  digits whose value lies in \<open>lo..hi\<close>.
\<close>

definition digit_field :: "int \<Rightarrow> int \<Rightarrow> string \<Rightarrow> (int \<times> string) option" where
  "digit_field lo hi s =
     (let ds = takeWhile is_digit s; v = int_of_digits ds
      in if (length ds = 1 \<or> length ds = 2) \<and> lo \<le> v \<and> v \<le> hi
         then Some (v, dropWhile is_digit s) else None)"

definition year_field :: "string \<Rightarrow> (int \<times> string) option" where
  "year_field s =
     (let ds = takeWhile is_digit s
      in if length ds = 4 then Some (int_of_digits ds, dropWhile is_digit s) else None)"

definition day_field :: "string \<Rightarrow> (int \<times> string) option" where
  "day_field s =
     (case s of
        c # d # rest \<Rightarrow>
          (if c = CHR '' '' \<and> CHR ''1'' \<le> d \<and> d \<le> CHR ''9''
           then Some (int_of_digits [d], rest) else digit_field 1 31 s)
      | _ \<Rightarrow> digit_field 1 31 s)"

definition fraction_field :: "string \<Rightarrow> (int \<times> string) option" where
  "fraction_field s =
     (let ds = takeWhile is_digit s
      in if 1 \<le> length ds \<and> length ds \<le> 6
         then Some (int_of_digits (ds @ replicate (6 - length ds) CHR ''0''), dropWhile is_digit s)
         else None)"

definition literal :: "char \<Rightarrow> string \<Rightarrow> string option" where
  "literal c s = (case s of [] \<Rightarrow> None | x # rest \<Rightarrow> (if x = c then Some rest else None))"

definition whitespace :: "string \<Rightarrow> string option" where
  "whitespace s =
     (case s of [] \<Rightarrow> None
      | x # rest \<Rightarrow> (if is_space x then Some (dropWhile is_space rest) else None))"

text \<open>The seven groups of the match, or \<open>None\<close> when the string does not match the format
  (unconverted trailing data included).\<close>

definition match_format :: "string \<Rightarrow> (int \<times> int \<times> int \<times> int \<times> int \<times> int \<times> int) option" where
  "match_format s =
     Option.bind (year_field s) (\<lambda>(y, s1).
     Option.bind (literal CHR ''-'' s1) (\<lambda>s2.
     Option.bind (digit_field 1 12 s2) (\<lambda>(m, s3).
     Option.bind (literal CHR ''-'' s3) (\<lambda>s4.
     Option.bind (day_field s4) (\<lambda>(d, s5).
     Option.bind (whitespace s5) (\<lambda>s6.
     Option.bind (digit_field 0 23 s6) (\<lambda>(hh, s7).
     Option.bind (literal CHR '':'' s7) (\<lambda>s8.
     Option.bind (digit_field 0 59 s8) (\<lambda>(mm, s9).
     Option.bind (literal CHR '':'' s9) (\<lambda>s10.
     Option.bind (digit_field 0 61 s10) (\<lambda>(ss, s11).
     Option.bind (literal CHR ''.'' s11) (\<lambda>s12.
     Option.bind (fraction_field s12) (\<lambda>(us, s13).
     if s13 = [] then Some (y, m, d, hh, mm, ss, us) else None)))))))))))))"

definition strptime :: "string \<Rightarrow> py_error + datetime" where
  "strptime s =
     (case match_format s of
        None \<Rightarrow> Inl ValueError
      | Some (y, m, d, hh, mm, ss, us) \<Rightarrow> datetime_new y m d hh mm ss us None)"

section \<open>String helpers\<close>

text \<open>\<^verbatim>\<open>old in s\<close> and \<^verbatim>\<open>s.replace(old, new)\<close> for a non-empty \<open>old\<close>: occurrences are
  replaced from left to right, without overlap.\<close>

fun str_contains :: "string \<Rightarrow> string \<Rightarrow> bool" where
  "str_contains old [] = (old = [])"
| "str_contains old (c # cs) =
     (if take (length old) (c # cs) = old then True else str_contains old cs)"

fun str_replace :: "string \<Rightarrow> string \<Rightarrow> string \<Rightarrow> string" where
  "str_replace old new [] = []"
| "str_replace old new (c # cs) =
     (if old \<noteq> [] \<and> take (length old) (c # cs) = old
      then new @ str_replace old new (drop (length old - 1) cs)
      else c # str_replace old new cs)"

section \<open>check\_consistency.py: normalisation of timestamps\<close>

definition convert_sqlite_datetime :: "pyval \<Rightarrow> py_error + pyval" where
  "convert_sqlite_datetime v =
     (case v of
        PStr s \<Rightarrow>
          (if str_contains ''+00'' s
           then (case strptime (str_replace ''+00'' [] s) of
                   Inl e \<Rightarrow> Inl e
                 | Inr d \<Rightarrow> Inr (PDateTime d))
           else Inr v)
      | _ \<Rightarrow> Inr v)"

text \<open>\<^verbatim>\<open>value.astimezone(pytz.utc).replace(tzinfo=None)\<close>: the wall-clock fields are moved
  to UTC and the offset is dropped.\<close>

definition convert_postgres_datetime :: "pyval \<Rightarrow> pyval" where
  "convert_postgres_datetime v =
     (case v of
        PDateTime d \<Rightarrow>
          (case utcoffset d of
             Some off \<Rightarrow> PDateTime (DateTime (wall_micros d - off * 60000000) None)
           | None \<Rightarrow> v)
      | _ \<Rightarrow> v)"

section \<open>check\_consistency.py: the two stores as the checker reads them\<close>

text \<open>
  A fetched row lists its columns in order with their values. \<^verbatim>\<open>sqlite3.Row\<close> raises
  \<^verbatim>\<open>IndexError\<close> for an unknown column name, the \<^verbatim>\<open>RealDictCursor\<close> row raises
  \<^verbatim>\<open>KeyError\<close>. A store maps a table name to the rows of that table; \<^verbatim>\<open>ORDER BY id\<close>
  sorts them by the text of their id.
\<close>

type_synonym row = "(string \<times> pyval) list"

type_synonym store = "string \<Rightarrow> row list"

definition sqlite_row_get :: "row \<Rightarrow> string \<Rightarrow> py_error + pyval" where
  "sqlite_row_get r c = (case map_of r c of None \<Rightarrow> Inl (IndexError c) | Some v \<Rightarrow> Inr v)"

definition pg_row_get :: "row \<Rightarrow> string \<Rightarrow> py_error + pyval" where
  "pg_row_get r c = (case map_of r c of None \<Rightarrow> Inl (KeyError c) | Some v \<Rightarrow> Inr v)"

definition id_key :: "row \<Rightarrow> string" where
  "id_key r = (case map_of r ''id'' of Some (PStr s) \<Rightarrow> s | _ \<Rightarrow> [])"

definition select_order_by_id :: "store \<Rightarrow> string \<Rightarrow> row list" where
  "select_order_by_id db table = sort_key id_key (db table)"

definition select_count :: "store \<Rightarrow> string \<Rightarrow> nat" where
  "select_count db table = length (db table)"

text \<open>The lines the checker writes to its log.\<close>

datatype log_record =
    Info_checking_table string
  | Info_counts string nat nat
  | Info_count_matches string
  | Info_checking_content string
  | Info_content_matches string
  | Info_table_passed string
  | Error_logged assertion
  | Info_testing_completed

section \<open>check\_consistency.py: the count check and the content check\<close>

definition compare_table_count :: "store \<Rightarrow> store \<Rightarrow> string \<Rightarrow> log_record list \<times> (py_error + bool)" where
  "compare_table_count sqlite pg table =
     (let sqlite_count = select_count sqlite table;
          pg_count = select_count pg table;
          out = [Info_counts table sqlite_count pg_count]
      in if sqlite_count = pg_count
         then (out @ [Info_count_matches table], Inr True)
         else (out, Inl (AssertionError (Count_mismatch table))))"

text \<open>The body of the inner loop of \<^verbatim>\<open>compare_table_data\<close>, for one column of one pair
  of rows.\<close>

definition is_timestamp_column :: "string \<Rightarrow> bool" where
  "is_timestamp_column column = (column = ''created'' \<or> column = ''modified'')"

definition compare_column :: "row \<Rightarrow> row \<Rightarrow> string \<Rightarrow> py_error + unit" where
  "compare_column sqlite_row pg_row column =
     (case sqlite_row_get sqlite_row column of
        Inl e \<Rightarrow> Inl e
      | Inr sqlite_value0 \<Rightarrow>
     (case pg_row_get pg_row column of
        Inl e \<Rightarrow> Inl e
      | Inr pg_value0 \<Rightarrow>
     (case (if is_timestamp_column column then convert_sqlite_datetime sqlite_value0
            else Inr sqlite_value0) of
        Inl e \<Rightarrow> Inl e
      | Inr sqlite_value \<Rightarrow>
         (let pg_value = (if is_timestamp_column column then convert_postgres_datetime pg_value0
                          else pg_value0)
          in if sqlite_value = PNone \<and> py_eq pg_value (PFloat 0) then Inr ()
             else if py_eq sqlite_value pg_value then Inr ()
             else (case sqlite_row_get sqlite_row ''id'' of
                     Inl e \<Rightarrow> Inl e
                   | Inr i \<Rightarrow>
                       Inl (AssertionError (Field_mismatch i column sqlite_value pg_value)))))))"

fun compare_columns :: "row \<Rightarrow> row \<Rightarrow> string list \<Rightarrow> py_error + unit" where
  "compare_columns sqlite_row pg_row [] = Inr ()"
| "compare_columns sqlite_row pg_row (column # columns) =
     (case compare_column sqlite_row pg_row column of
        Inl e \<Rightarrow> Inl e
      | Inr _ \<Rightarrow> compare_columns sqlite_row pg_row columns)"

fun compare_rows :: "(row \<times> row) list \<Rightarrow> py_error + unit" where
  "compare_rows [] = Inr ()"
| "compare_rows ((sqlite_row, pg_row) # pairs) =
     (case compare_columns sqlite_row pg_row (map fst sqlite_row) of
        Inl e \<Rightarrow> Inl e
      | Inr _ \<Rightarrow> compare_rows pairs)"

definition compare_table_data :: "store \<Rightarrow> store \<Rightarrow> string \<Rightarrow> log_record list \<times> (py_error + bool)" where
  "compare_table_data sqlite pg table =
     (let sqlite_rows = select_order_by_id sqlite table;
          pg_rows = select_order_by_id pg table;
          out = [Info_checking_content table]
      in if length sqlite_rows \<noteq> length pg_rows
         then (out, Inl (AssertionError (Content_row_count_mismatch table)))
         else (case compare_rows (zip sqlite_rows pg_rows) of
                 Inl e \<Rightarrow> (out, Inl e)
               | Inr _ \<Rightarrow> (out @ [Info_content_matches table], Inr True)))"

section \<open>check\_consistency.py: the driver\<close>

text \<open>The body of the \<^verbatim>\<open>try\<close> block for one table: the count check, then the content
  check, then the success line. An exception of either check leaves the block.\<close>

definition check_table :: "store \<Rightarrow> store \<Rightarrow> string \<Rightarrow> log_record list \<times> (py_error + unit)" where
  "check_table sqlite pg table =
     (case compare_table_count sqlite pg table of
        (log1, Inl e) \<Rightarrow> (log1, Inl e)
      | (log1, Inr _) \<Rightarrow>
          (case compare_table_data sqlite pg table of
             (log2, Inl e) \<Rightarrow> (log1 @ log2, Inl e)
           | (log2, Inr _) \<Rightarrow> (log1 @ log2 @ [Info_table_passed table], Inr ())))"

text \<open>The \<^verbatim>\<open>for table in tables\<close> loop: only \<^verbatim>\<open>AssertionError\<close> is caught (logged, then
  \<^verbatim>\<open>continue\<close>); any other exception leaves the loop and the function.\<close>

fun check_tables :: "store \<Rightarrow> store \<Rightarrow> string list \<Rightarrow> log_record list \<times> (py_error + unit)" where
  "check_tables sqlite pg [] = ([], Inr ())"
| "check_tables sqlite pg (table # tables) =
     (case check_table sqlite pg table of
        (out, Inl (AssertionError a)) \<Rightarrow>
          (case check_tables sqlite pg tables of
             (rest, r) \<Rightarrow> (Info_checking_table table # out @ Error_logged a # rest, r))
      | (out, Inl e) \<Rightarrow> (Info_checking_table table # out, Inl e)
      | (out, Inr _) \<Rightarrow>
          (case check_tables sqlite pg tables of
             (rest, r) \<Rightarrow> (Info_checking_table table # out @ rest, r)))"

definition tables :: "string list" where
  "tables = [''person'', ''genre'', ''film_work'', ''genre_film_work'', ''person_film_work'']"

definition test_data_integrity :: "store \<Rightarrow> store \<Rightarrow> log_record list \<times> (py_error + unit)" where
  "test_data_integrity sqlite pg =
     (case check_tables sqlite pg tables of
        (out, Inl e) \<Rightarrow> (out, Inl e)
      | (out, Inr _) \<Rightarrow> (out @ [Info_testing_completed], Inr ()))"

section \<open>load\_data.py: the reader\<close>

text \<open>
  \<^verbatim>\<open>SELECT * FROM table LIMIT n OFFSET k\<close> on the rows of a table in their native order.
  SQLite reads a negative limit as no limit and a negative offset as zero.
\<close>

definition select_limit_offset :: "'r list \<Rightarrow> int \<Rightarrow> int \<Rightarrow> 'r list" where
  "select_limit_offset rows limit offset =
     (let r = drop (nat offset) rows in if limit < 0 then r else take (nat limit) r)"

text \<open>
  The \<^verbatim>\<open>while offset < total_rows\<close> loop of \<^verbatim>\<open>SQLiteLoader.load_data\<close>, returning the
  batches it yields. With a batch size that is not positive the offset never passes
  \<open>total_rows\<close> and the loop does not end: the result is then \<open>None\<close>.
  The source is taken to hold the table, so the \<^verbatim>\<open>except\<close> branch for a failed read
  is not reached.
\<close>

partial_function (option) load_batches :: "'r list \<Rightarrow> int \<Rightarrow> int \<Rightarrow> int \<Rightarrow> 'r list list option" where
  "load_batches rows total_rows batch_size offset =
     (if offset < total_rows
      then Option.bind (load_batches rows total_rows batch_size (offset + batch_size))
             (\<lambda>rest. Some (select_limit_offset rows batch_size offset # rest))
      else Some [])"

declare load_batches.simps [code]

definition load_data :: "'r list \<Rightarrow> int \<Rightarrow> 'r list list option" where
  "load_data rows batch_size = load_batches rows (int (length rows)) batch_size 0"

text \<open>
  The reader's contract in the words of the specification: batch \<open>k\<close> holds the rows
  \<open>[k * batchSize, (k + 1) * batchSize)\<close>, and the batches end once \<open>countRows\<close> rows
  have been yielded.
\<close>

definition spec_batches :: "'r list \<Rightarrow> nat \<Rightarrow> 'r list list" where
  "spec_batches rows batchSize =
     map (\<lambda>k. take batchSize (drop (k * batchSize) rows))
       [0 ..< (length rows + batchSize - 1) div batchSize]"

section \<open>load\_data.py: rows and the target store\<close>

text \<open>
  A row of each table, with the columns the writer reads from the source and names in its
  \<^verbatim>\<open>INSERT\<close> statement. The same shape serves for the source and for the target.
\<close>

record person_row =
  p_id :: pyval
  p_full_name :: pyval
  p_created :: pyval
  p_modified :: pyval

record genre_row =
  g_id :: pyval
  g_name :: pyval
  g_description :: pyval
  g_created :: pyval
  g_modified :: pyval

record film_work_row =
  fw_id :: pyval
  fw_title :: pyval
  fw_description :: pyval
  fw_creation_date :: pyval
  fw_file_path :: pyval
  fw_rating :: pyval
  fw_type :: pyval
  fw_created :: pyval
  fw_modified :: pyval

record person_film_work_row =
  pfw_id :: pyval
  pfw_role :: pyval
  pfw_created :: pyval
  pfw_film_work_id :: pyval
  pfw_person_id :: pyval

record genre_film_work_row =
  gfw_id :: pyval
  gfw_created :: pyval
  gfw_film_work_id :: pyval
  gfw_genre_id :: pyval

record database =
  person :: "person_row list"
  genre :: "genre_row list"
  film_work :: "film_work_row list"
  person_film_work :: "person_film_work_row list"
  genre_film_work :: "genre_film_work_row list"

text \<open>
  The target is a PostgreSQL database with the constraints the models declare: the primary
  key \<open>id\<close> of every table, \<open>genre_name_unique\<close>, \<open>person_film_work_unique\<close> on
  \<open>(film_work, person, role)\<close>, \<open>genre_film_work_unique\<close> on \<open>(genre, film_work)\<close>, and the
  foreign keys of the two link tables. A primary key is never \<^verbatim>\<open>NULL\<close>. In a key
  comparison \<^verbatim>\<open>NULL\<close> equals nothing, and a \<^verbatim>\<open>NULL\<close> foreign key refers to nothing
  and is accepted.

  The types of the target's columns and their \<^verbatim>\<open>NOT NULL\<close> marks are fixed by the schema
  of the target, which the loader does not hold: they are a parameter of the model.
  \<open>accepts table column v\<close> says that the column takes the value \<open>v\<close> as a literal
  (of its type, and not \<^verbatim>\<open>NULL\<close> where \<^verbatim>\<open>NULL\<close> is refused). The columns \<^verbatim>\<open>created\<close>
  and \<^verbatim>\<open>modified\<close> are timestamps and take every \<^verbatim>\<open>datetime\<close>.
\<close>

type_synonym column_checks = "string \<Rightarrow> string \<Rightarrow> pyval \<Rightarrow> bool"

definition takes :: "column_checks \<Rightarrow> string \<Rightarrow> string \<times> pyval \<Rightarrow> bool" where
  "takes accepts table cv =
     (case snd cv of
        PDateTime d \<Rightarrow> (if is_timestamp_column (fst cv) then True else accepts table (fst cv) (snd cv))
      | _ \<Rightarrow> accepts table (fst cv) (snd cv))"

datatype sql_error =
    DataError string
  | NotNullViolation string
  | UniqueViolation string
  | ForeignKeyViolation string
  | InFailedSqlTransaction

text \<open>The first column of a statement, in the order of its column list, that refuses its
  value.\<close>

fun rejected_column :: "column_checks \<Rightarrow> string \<Rightarrow> (string \<times> pyval) list \<Rightarrow> sql_error option" where
  "rejected_column accepts table [] = None"
| "rejected_column accepts table (cv # cvs) =
     (if takes accepts table cv then rejected_column accepts table cvs
      else Some (DataError (fst cv)))"

definition sql_eq :: "pyval \<Rightarrow> pyval \<Rightarrow> bool" where
  "sql_eq a b = (a \<noteq> PNone \<and> a = b)"

definition references :: "pyval \<Rightarrow> pyval list \<Rightarrow> bool" where
  "references v ids = (if v = PNone then True else list_ex (sql_eq v) ids)"

text \<open>
  \<^verbatim>\<open>INSERT ... ON CONFLICT (key) DO NOTHING\<close>, where \<open>key\<close> is the primary key. The
  values are first read as literals of their columns: \<open>rejected\<close> is the error of the
  first column that refuses its value, and a \<^verbatim>\<open>NULL\<close> key is refused. Only then is the
  conflict tested: when a stored row has the key of the new row, nothing happens.
  Otherwise the first violated constraint among \<open>checks\<close> is raised (unique indexes are
  checked on insertion, foreign keys after it), and without a violation the row is
  appended.
\<close>

fun first_violation :: "(bool \<times> sql_error) list \<Rightarrow> sql_error option" where
  "first_violation [] = None"
| "first_violation ((violated, e) # checks) = (if violated then Some e else first_violation checks)"

definition insert_on_conflict_do_nothing ::
  "('r \<Rightarrow> pyval) \<Rightarrow> sql_error option \<Rightarrow> (bool \<times> sql_error) list \<Rightarrow> 'r \<Rightarrow> 'r list
     \<Rightarrow> sql_error + 'r list" where
  "insert_on_conflict_do_nothing key rejected checks new rows =
     (case rejected of
        Some e \<Rightarrow> Inl e
      | None \<Rightarrow>
          (if key new = PNone then Inl (NotNullViolation ''id'')
           else if list_ex (\<lambda>old. sql_eq (key new) (key old)) rows then Inr rows
           else (case first_violation checks of
                   Some e \<Rightarrow> Inl e
                 | None \<Rightarrow> Inr (rows @ [new]))))"

text \<open>The column lists of the five statements, with the values of a row.\<close>

definition person_columns :: "person_row \<Rightarrow> (string \<times> pyval) list" where
  "person_columns r = [(''id'', p_id r), (''full_name'', p_full_name r),
     (''created'', p_created r), (''modified'', p_modified r)]"

definition genre_columns :: "genre_row \<Rightarrow> (string \<times> pyval) list" where
  "genre_columns r = [(''id'', g_id r), (''name'', g_name r), (''description'', g_description r),
     (''created'', g_created r), (''modified'', g_modified r)]"

definition film_work_columns :: "film_work_row \<Rightarrow> (string \<times> pyval) list" where
  "film_work_columns r = [(''id'', fw_id r), (''title'', fw_title r),
     (''description'', fw_description r), (''creation_date'', fw_creation_date r),
     (''file_path'', fw_file_path r), (''rating'', fw_rating r), (''type'', fw_type r),
     (''created'', fw_created r), (''modified'', fw_modified r)]"

definition person_film_work_columns :: "person_film_work_row \<Rightarrow> (string \<times> pyval) list" where
  "person_film_work_columns r = [(''id'', pfw_id r), (''role'', pfw_role r),
     (''created'', pfw_created r), (''film_work_id'', pfw_film_work_id r),
     (''person_id'', pfw_person_id r)]"

definition genre_film_work_columns :: "genre_film_work_row \<Rightarrow> (string \<times> pyval) list" where
  "genre_film_work_columns r = [(''id'', gfw_id r), (''created'', gfw_created r),
     (''film_work_id'', gfw_film_work_id r), (''genre_id'', gfw_genre_id r)]"

text \<open>The five statements of \<^verbatim>\<open>PostgresSaver\<close>. Each names \<^verbatim>\<open>ON CONFLICT (id)\<close>.\<close>

definition insert_person :: "column_checks \<Rightarrow> person_row \<Rightarrow> database \<Rightarrow> sql_error + database" where
  "insert_person accepts new db =
     (case insert_on_conflict_do_nothing p_id
             (rejected_column accepts ''person'' (person_columns new)) [] new (person db) of
        Inl e \<Rightarrow> Inl e
      | Inr rows \<Rightarrow> Inr (db\<lparr>person := rows\<rparr>))"

definition insert_genre :: "column_checks \<Rightarrow> genre_row \<Rightarrow> database \<Rightarrow> sql_error + database" where
  "insert_genre accepts new db =
     (case insert_on_conflict_do_nothing g_id
             (rejected_column accepts ''genre'' (genre_columns new))
             [(list_ex (\<lambda>old. sql_eq (g_name new) (g_name old)) (genre db),
               UniqueViolation ''genre_name_unique'')]
             new (genre db) of
        Inl e \<Rightarrow> Inl e
      | Inr rows \<Rightarrow> Inr (db\<lparr>genre := rows\<rparr>))"

definition insert_film_work ::
  "column_checks \<Rightarrow> film_work_row \<Rightarrow> database \<Rightarrow> sql_error + database" where
  "insert_film_work accepts new db =
     (case insert_on_conflict_do_nothing fw_id
             (rejected_column accepts ''film_work'' (film_work_columns new)) [] new
             (film_work db) of
        Inl e \<Rightarrow> Inl e
      | Inr rows \<Rightarrow> Inr (db\<lparr>film_work := rows\<rparr>))"

definition insert_person_film_work ::
  "column_checks \<Rightarrow> person_film_work_row \<Rightarrow> database \<Rightarrow> sql_error + database" where
  "insert_person_film_work accepts new db =
     (case insert_on_conflict_do_nothing pfw_id
             (rejected_column accepts ''person_film_work'' (person_film_work_columns new))
             [(list_ex (\<lambda>old. sql_eq (pfw_film_work_id new) (pfw_film_work_id old)
                             \<and> sql_eq (pfw_person_id new) (pfw_person_id old)
                             \<and> sql_eq (pfw_role new) (pfw_role old)) (person_film_work db),
               UniqueViolation ''person_film_work_unique''),
              (\<not> references (pfw_film_work_id new) (map fw_id (film_work db)),
               ForeignKeyViolation ''film_work_id''),
              (\<not> references (pfw_person_id new) (map p_id (person db)),
               ForeignKeyViolation ''person_id'')]
             new (person_film_work db) of
        Inl e \<Rightarrow> Inl e
      | Inr rows \<Rightarrow> Inr (db\<lparr>person_film_work := rows\<rparr>))"

definition insert_genre_film_work ::
  "column_checks \<Rightarrow> genre_film_work_row \<Rightarrow> database \<Rightarrow> sql_error + database" where
  "insert_genre_film_work accepts new db =
     (case insert_on_conflict_do_nothing gfw_id
             (rejected_column accepts ''genre_film_work'' (genre_film_work_columns new))
             [(list_ex (\<lambda>old. sql_eq (gfw_genre_id new) (gfw_genre_id old)
                             \<and> sql_eq (gfw_film_work_id new) (gfw_film_work_id old))
                 (genre_film_work db),
               UniqueViolation ''genre_film_work_unique''),
              (\<not> references (gfw_film_work_id new) (map fw_id (film_work db)),
               ForeignKeyViolation ''film_work_id''),
              (\<not> references (gfw_genre_id new) (map g_id (genre db)),
               ForeignKeyViolation ''genre_id'')]
             new (genre_film_work db) of
        Inl e \<Rightarrow> Inl e
      | Inr rows \<Rightarrow> Inr (db\<lparr>genre_film_work := rows\<rparr>))"

text \<open>
  A psycopg2 connection runs its statements in one transaction until \<^verbatim>\<open>commit\<close>.
  \<open>columns\<close> are the column checks of the target it is connected to,
  \<open>committed\<close> is the durable content, \<open>working\<close> the content the open transaction sees.
  A statement that fails aborts the transaction: every later statement raises
  \<^verbatim>\<open>InFailedSqlTransaction\<close>, and \<^verbatim>\<open>commit\<close> then discards the transaction's work.
\<close>

record connection =
  columns :: column_checks
  committed :: database
  working :: database
  aborted :: bool

definition connect :: "column_checks \<Rightarrow> database \<Rightarrow> connection" where
  "connect accepts db = \<lparr>columns = accepts, committed = db, working = db, aborted = False\<rparr>"

text \<open>A connection between two transactions: nothing pending, nothing failed.\<close>

definition clean :: "connection \<Rightarrow> bool" where
  "clean c = (\<not> aborted c \<and> working c = committed c)"

definition execute :: "(database \<Rightarrow> sql_error + database) \<Rightarrow> connection \<Rightarrow> sql_error option \<times> connection" where
  "execute stmt c =
     (if aborted c then (Some InFailedSqlTransaction, c)
      else (case stmt (working c) of
              Inl e \<Rightarrow> (Some e, c\<lparr>aborted := True\<rparr>)
            | Inr db \<Rightarrow> (None, c\<lparr>working := db\<rparr>)))"

definition commit :: "connection \<Rightarrow> connection" where
  "commit c =
     (if aborted c then c\<lparr>working := committed c, aborted := False\<rparr>
      else c\<lparr>committed := working c\<rparr>)"

section \<open>load\_data.py: the writer\<close>

text \<open>
  The writer's surroundings: the connection, the wall clock and the warnings logged so
  far. \<open>clock st n\<close> is what the \<open>n\<close>-th call of \<^verbatim>\<open>datetime.now()\<close> returns; \<open>ticks\<close>
  counts the calls made. Only the warnings of the log are kept.
\<close>

datatype warning = Error_inserting string pyval sql_error

record saver_state =
  conn :: connection
  clock :: "nat \<Rightarrow> datetime"
  ticks :: nat
  warnings :: "warning list"

definition datetime_now :: "saver_state \<Rightarrow> pyval \<times> saver_state" where
  "datetime_now st = (PDateTime (clock st (ticks st)), st\<lparr>ticks := Suc (ticks st)\<rparr>)"

text \<open>\<^verbatim>\<open>v or datetime.now()\<close> and \<^verbatim>\<open>v if v is not None else datetime.now()\<close>.\<close>

definition or_now :: "pyval \<Rightarrow> saver_state \<Rightarrow> pyval \<times> saver_state" where
  "or_now v st = (if truthy v then (v, st) else datetime_now st)"

definition if_not_none_else_now :: "pyval \<Rightarrow> saver_state \<Rightarrow> pyval \<times> saver_state" where
  "if_not_none_else_now v st = (if v \<noteq> PNone then (v, st) else datetime_now st)"

text \<open>\<^verbatim>\<open>try: cursor.execute(...) except Exception as e: logger.warning(...)\<close>.\<close>

definition try_execute ::
  "string \<Rightarrow> pyval \<Rightarrow> (database \<Rightarrow> sql_error + database) \<Rightarrow> saver_state \<Rightarrow> saver_state" where
  "try_execute table row_id stmt st =
     (case execute stmt (conn st) of
        (None, c) \<Rightarrow> st\<lparr>conn := c\<rparr>
      | (Some e, c) \<Rightarrow> st\<lparr>conn := c, warnings := warnings st @ [Error_inserting table row_id e]\<rparr>)"

text \<open>The values each loop body passes to its statement, and the loop bodies.\<close>

definition person_values :: "person_row \<Rightarrow> saver_state \<Rightarrow> person_row \<times> saver_state" where
  "person_values row st =
     (let (created, st1) = or_now (p_created row) st;
          (modified, st2) = or_now (p_modified row) st1
      in (\<lparr>p_id = p_id row, p_full_name = p_full_name row,
           p_created = created, p_modified = modified\<rparr>, st2))"

definition save_person :: "person_row \<Rightarrow> saver_state \<Rightarrow> saver_state" where
  "save_person row st =
     (let (new, st1) = person_values row st
      in try_execute ''person'' (p_id row) (insert_person (columns (conn st1)) new) st1)"

definition genre_values :: "genre_row \<Rightarrow> saver_state \<Rightarrow> genre_row \<times> saver_state" where
  "genre_values row st =
     (let (created, st1) = or_now (g_created row) st;
          (modified, st2) = or_now (g_modified row) st1
      in (\<lparr>g_id = g_id row, g_name = g_name row, g_description = g_description row,
           g_created = created, g_modified = modified\<rparr>, st2))"

definition save_genre :: "genre_row \<Rightarrow> saver_state \<Rightarrow> saver_state" where
  "save_genre row st =
     (let (new, st1) = genre_values row st
      in try_execute ''genre'' (g_id row) (insert_genre (columns (conn st1)) new) st1)"

definition film_work_values :: "film_work_row \<Rightarrow> saver_state \<Rightarrow> film_work_row \<times> saver_state" where
  "film_work_values row st =
     (let rating = (if fw_rating row \<noteq> PNone then fw_rating row else PFloat 0);
          (created, st1) = or_now (fw_created row) st;
          (modified, st2) = or_now (fw_modified row) st1
      in (\<lparr>fw_id = fw_id row, fw_title = fw_title row, fw_description = fw_description row,
           fw_creation_date = fw_creation_date row, fw_file_path = fw_file_path row,
           fw_rating = rating, fw_type = fw_type row,
           fw_created = created, fw_modified = modified\<rparr>, st2))"

definition save_film_work :: "film_work_row \<Rightarrow> saver_state \<Rightarrow> saver_state" where
  "save_film_work row st =
     (let (new, st1) = film_work_values row st
      in try_execute ''film_work'' (fw_id row) (insert_film_work (columns (conn st1)) new) st1)"

definition person_film_work_values ::
  "person_film_work_row \<Rightarrow> saver_state \<Rightarrow> person_film_work_row \<times> saver_state" where
  "person_film_work_values row st =
     (let (created, st1) = if_not_none_else_now (pfw_created row) st
      in (\<lparr>pfw_id = pfw_id row, pfw_role = pfw_role row, pfw_created = created,
           pfw_film_work_id = pfw_film_work_id row, pfw_person_id = pfw_person_id row\<rparr>, st1))"

definition save_person_film_work_row :: "person_film_work_row \<Rightarrow> saver_state \<Rightarrow> saver_state" where
  "save_person_film_work_row row st =
     (let (new, st1) = person_film_work_values row st
      in try_execute ''person_film_work'' (pfw_id row) (insert_person_film_work (columns (conn st1)) new) st1)"

definition genre_film_work_values ::
  "genre_film_work_row \<Rightarrow> saver_state \<Rightarrow> genre_film_work_row \<times> saver_state" where
  "genre_film_work_values row st =
     (let (created, st1) = if_not_none_else_now (gfw_created row) st
      in (\<lparr>gfw_id = gfw_id row, gfw_created = created,
           gfw_film_work_id = gfw_film_work_id row, gfw_genre_id = gfw_genre_id row\<rparr>, st1))"

definition save_genre_film_work_row :: "genre_film_work_row \<Rightarrow> saver_state \<Rightarrow> saver_state" where
  "save_genre_film_work_row row st =
     (let (new, st1) = genre_film_work_values row st
      in try_execute ''genre_film_work'' (gfw_id row) (insert_genre_film_work (columns (conn st1)) new) st1)"

text \<open>The five methods of \<^verbatim>\<open>PostgresSaver\<close>: the loop over the batch, then the commit.\<close>

definition conn_commit :: "saver_state \<Rightarrow> saver_state" where
  "conn_commit st = st\<lparr>conn := commit (conn st)\<rparr>"

definition save_persons :: "person_row list \<Rightarrow> saver_state \<Rightarrow> saver_state" where
  "save_persons data st = conn_commit (fold save_person data st)"

definition save_genres :: "genre_row list \<Rightarrow> saver_state \<Rightarrow> saver_state" where
  "save_genres data st = conn_commit (fold save_genre data st)"

definition save_film_works :: "film_work_row list \<Rightarrow> saver_state \<Rightarrow> saver_state" where
  "save_film_works data st = conn_commit (fold save_film_work data st)"

definition save_person_film_work :: "person_film_work_row list \<Rightarrow> saver_state \<Rightarrow> saver_state" where
  "save_person_film_work data st = conn_commit (fold save_person_film_work_row data st)"

definition save_genre_film_work :: "genre_film_work_row list \<Rightarrow> saver_state \<Rightarrow> saver_state" where
  "save_genre_film_work data st = conn_commit (fold save_genre_film_work_row data st)"

section \<open>load\_data.py: the migration\<close>

text \<open>\<^verbatim>\<open>load_from_sqlite\<close>: the five tables in the order of the code, each read in batches
  of 1000 rows and saved batch by batch.\<close>

definition load_from_sqlite :: "database \<Rightarrow> saver_state \<Rightarrow> saver_state option" where
  "load_from_sqlite sqlite st =
     Option.bind (load_data (person sqlite) 1000) (\<lambda>persons.
     Option.bind (load_data (genre sqlite) 1000) (\<lambda>genres.
     Option.bind (load_data (film_work sqlite) 1000) (\<lambda>film_works.
     Option.bind (load_data (person_film_work sqlite) 1000) (\<lambda>person_film_works.
     Option.bind (load_data (genre_film_work sqlite) 1000) (\<lambda>genre_film_works.
       Some (fold save_genre_film_work genre_film_works
            (fold save_person_film_work person_film_works
            (fold save_film_works film_works
            (fold save_genres genres
            (fold save_persons persons st))))))))))"

text \<open>Every row of the source has its id in the target: the condition under which each
  statement of a run takes the conflict path.\<close>

definition has_id :: "('r \<Rightarrow> pyval) \<Rightarrow> 'r list \<Rightarrow> 'r \<Rightarrow> bool" where
  "has_id key rows new = list_ex (\<lambda>old. sql_eq (key new) (key old)) rows"

definition all_present :: "database \<Rightarrow> database \<Rightarrow> bool" where
  "all_present sqlite db =
     (list_all (has_id p_id (person db)) (person sqlite)
      \<and> list_all (has_id g_id (genre db)) (genre sqlite)
      \<and> list_all (has_id fw_id (film_work db)) (film_work sqlite)
      \<and> list_all (has_id pfw_id (person_film_work db)) (person_film_work sqlite)
      \<and> list_all (has_id gfw_id (genre_film_work db)) (genre_film_work sqlite))"

text \<open>The ids of a source are unique within each of its tables.\<close>

definition unique_ids :: "database \<Rightarrow> bool" where
  "unique_ids sqlite =
     (distinct (map p_id (person sqlite))
      \<and> distinct (map g_id (genre sqlite))
      \<and> distinct (map fw_id (film_work sqlite))
      \<and> distinct (map pfw_id (person_film_work sqlite))
      \<and> distinct (map gfw_id (genre_film_work sqlite)))"

text \<open>
  A notion for the proofs about the writer, shared by the five tables. \<open>step\<close> is the
  body of the loop of a saver that writes the table \<open>tbl\<close>; \<open>others\<close> are the tables it
  leaves alone, \<open>par\<close> what its constraints read of them, \<open>ess\<close> the columns of a row that
  its constraints read, \<open>bad\<close> says that a column refuses a value of the row and \<open>viol\<close>
  that a constraint other than the primary key refuses the row. Then \<open>step\<close> is a writer
  of the table when a statement in an aborted transaction, a refused row and a violated
  constraint each log one warning and leave the transaction aborted, a row whose id is
  there changes nothing, and any other row is appended to the table.
\<close>

definition table_writer ::
  "(database \<Rightarrow> 'r list) \<Rightarrow> (database \<Rightarrow> 'o) \<Rightarrow> (database \<Rightarrow> 'p) \<Rightarrow> ('r \<Rightarrow> 'e) \<Rightarrow> ('r \<Rightarrow> pyval)
     \<Rightarrow> (column_checks \<Rightarrow> 'r \<Rightarrow> bool) \<Rightarrow> (database \<Rightarrow> 'r \<Rightarrow> bool)
     \<Rightarrow> ('r \<Rightarrow> saver_state \<Rightarrow> saver_state) \<Rightarrow> bool" where
  "table_writer tbl others par ess key bad viol step =
     ((\<forall>a b. ess a = ess b \<longrightarrow> key a = key b)
      \<and> (\<forall>W1 W2 row. set (map ess (tbl W1)) \<subseteq> set (map ess (tbl W2)) \<and> par W1 = par W2
             \<and> viol W1 row \<longrightarrow> viol W2 row)
      \<and> (\<forall>row st.
            columns (conn (step row st)) = columns (conn st)
            \<and> committed (conn (step row st)) = committed (conn st)
            \<and> (if aborted (conn st) \<or> bad (columns (conn st)) row \<or> key row = PNone
                  \<or> (\<not> has_id key (tbl (working (conn st))) row \<and> viol (working (conn st)) row)
               then aborted (conn (step row st))
                    \<and> working (conn (step row st)) = working (conn st)
                    \<and> length (warnings (step row st)) = Suc (length (warnings st))
               else \<not> aborted (conn (step row st))
                    \<and> warnings (step row st) = warnings st
                    \<and> (if has_id key (tbl (working (conn st))) row
                        then working (conn (step row st)) = working (conn st)
                        else (\<exists>new. tbl (working (conn (step row st)))
                                      = tbl (working (conn st)) @ [new] \<and> ess new = ess row)
                             \<and> others (working (conn (step row st))) = others (working (conn st))
                             \<and> par (working (conn (step row st))) = par (working (conn st))))))"

text \<open>A column of the target refuses a value that the saver hands to its statement for
  the row. (Which reading of the clock a missing timestamp gets makes no difference.)\<close>

definition refused_person :: "column_checks \<Rightarrow> person_row \<Rightarrow> bool" where
  "refused_person cols row =
     (\<exists>st. rejected_column cols ''person'' (person_columns (fst (person_values row st))) \<noteq> None)"

definition refused_genre :: "column_checks \<Rightarrow> genre_row \<Rightarrow> bool" where
  "refused_genre cols row =
     (\<exists>st. rejected_column cols ''genre'' (genre_columns (fst (genre_values row st))) \<noteq> None)"

definition refused_film_work :: "column_checks \<Rightarrow> film_work_row \<Rightarrow> bool" where
  "refused_film_work cols row =
     (\<exists>st. rejected_column cols ''film_work'' (film_work_columns (fst (film_work_values row st)))
             \<noteq> None)"

definition refused_person_film_work :: "column_checks \<Rightarrow> person_film_work_row \<Rightarrow> bool" where
  "refused_person_film_work cols row =
     (\<exists>st. rejected_column cols ''person_film_work''
             (person_film_work_columns (fst (person_film_work_values row st))) \<noteq> None)"

definition refused_genre_film_work :: "column_checks \<Rightarrow> genre_film_work_row \<Rightarrow> bool" where
  "refused_genre_film_work cols row =
     (\<exists>st. rejected_column cols ''genre_film_work''
             (genre_film_work_columns (fst (genre_film_work_values row st))) \<noteq> None)"

section \<open>Example stores\<close>

text \<open>Small stores on which the checker is run below.\<close>

definition example_sqlite :: store where
  "example_sqlite = (\<lambda>t. if t = ''person''
      then [[(''id'', PStr ''b''), (''full_name'', PStr ''Ann'')],
            [(''id'', PStr ''a''), (''full_name'', PStr ''Bob'')]]
      else [])"

definition example_pg :: store where
  "example_pg = (\<lambda>t. if t = ''person''
      then [[(''id'', PStr ''a''), (''full_name'', PStr ''Bobby'')],
            [(''id'', PStr ''b''), (''full_name'', PStr ''Anna'')]]
      else [])"

definition example_pg_short :: store where
  "example_pg_short = (\<lambda>t. if t = ''person''
      then [[(''id'', PStr ''a''), (''full_name'', PStr ''Bobby'')]]
      else [])"

definition example_sqlite_bad_timestamp :: store where
  "example_sqlite_bad_timestamp = (\<lambda>t. if t = ''film_work''
      then [[(''id'', PStr ''F1''), (''created'', PStr ''2023-05-01 12:00:00+00'')]]
      else [])"

definition example_pg_bad_timestamp :: store where
  "example_pg_bad_timestamp = (\<lambda>t. if t = ''film_work''
      then [[(''id'', PStr ''F1''), (''created'', PDateTime (DateTime 63818539200000000 (Some 0)))]]
      else [])"

text \<open>A source with one person, one genre, two film works, one genre link and three person
  links, the second of which names a film work that does not exist; an empty target; a
  clock that advances by one microsecond per reading.\<close>

definition example_clock :: "nat \<Rightarrow> datetime" where
  "example_clock n = DateTime (63818539200000000 + int n) None"

definition empty_database :: database where
  "empty_database = \<lparr>person = [], genre = [], film_work = [], person_film_work = [],
     genre_film_work = []\<rparr>"

text \<open>Example column checks: \<^verbatim>\<open>NULL\<close> is taken by the nullable columns of the models
  only, and every other value by every column.\<close>

definition example_columns :: column_checks where
  "example_columns table column v =
     (if v = PNone
      then column = ''description'' \<or> column = ''creation_date'' \<or> column = ''file_path''
      else True)"

definition initial_state :: "database \<Rightarrow> saver_state" where
  "initial_state db = \<lparr>conn = connect example_columns db, clock = example_clock, ticks = 0,
     warnings = []\<rparr>"

definition example_person :: person_row where
  "example_person = \<lparr>p_id = PStr ''P1'', p_full_name = PStr ''Ann'',
     p_created = PStr ''2021-06-16 20:14:09.1+00'', p_modified = PNone\<rparr>"

definition example_genre :: genre_row where
  "example_genre = \<lparr>g_id = PStr ''G1'', g_name = PStr ''Drama'', g_description = PNone,
     g_created = PNone, g_modified = PNone\<rparr>"

definition example_film_work :: "string \<Rightarrow> film_work_row" where
  "example_film_work i = \<lparr>fw_id = PStr i, fw_title = PStr ''Title'', fw_description = PNone,
     fw_creation_date = PNone, fw_file_path = PNone, fw_rating = PNone, fw_type = PStr ''movie'',
     fw_created = PStr ''2021-06-16 20:14:09.2+00'', fw_modified = PStr ''2021-06-16 20:14:09.3+00''\<rparr>"

definition example_person_film_work :: "string \<Rightarrow> string \<Rightarrow> person_film_work_row" where
  "example_person_film_work i f = \<lparr>pfw_id = PStr i, pfw_role = PStr ''actor'',
     pfw_created = PStr ''2021-06-16 20:14:09.4+00'', pfw_film_work_id = PStr f,
     pfw_person_id = PStr ''P1''\<rparr>"

definition example_genre_film_work :: genre_film_work_row where
  "example_genre_film_work = \<lparr>gfw_id = PStr ''X1'', gfw_created = PStr ''2021-06-16 20:14:09.5+00'',
     gfw_film_work_id = PStr ''F1'', gfw_genre_id = PStr ''G1''\<rparr>"

definition example_source :: database where
  "example_source = \<lparr>person = [example_person], genre = [example_genre],
     film_work = [example_film_work ''F1'', example_film_work ''F3''],
     person_film_work = [example_person_film_work ''A1'' ''F1'',
                         example_person_film_work ''A2'' ''F2'',
                         example_person_film_work ''A3'' ''F3''],
     genre_film_work = [example_genre_film_work]\<rparr>"

text \<open>The same source without the person link that names the missing film work.\<close>

definition example_source_valid :: database where
  "example_source_valid = example_source\<lparr>person_film_work :=
     [example_person_film_work ''A1'' ''F1'', example_person_film_work ''A3'' ''F3'']\<rparr>"




definition example_person_empty_created :: person_row where
  "example_person_empty_created = \<lparr>p_id = PStr ''P2'', p_full_name = PStr ''Bob'',
     p_created = PStr [], p_modified = PStr ''2021-06-16 20:14:09.1+00''\<rparr>"

section \<open>Properties of the checker\<close>

lemma convert_sqlite_datetime_not_str:
  "convert_sqlite_datetime PNone = Inr PNone"
  "convert_sqlite_datetime (PFloat f) = Inr (PFloat f)"
  by (simp_all add: convert_sqlite_datetime_def)

lemma convert_postgres_datetime_not_datetime:
  "convert_postgres_datetime PNone = PNone"
  "convert_postgres_datetime (PFloat f) = PFloat f"
  by (simp_all add: convert_postgres_datetime_def)

text \<open>
  Claim C8. The source string \<^verbatim>\<open>"2023-05-01 12:00:00.000000+00"\<close> and the aware target
  timestamp 2023-05-01T12:00:00+00:00 are normalised by the two converters to the same
  naive timestamp, and the comparison of a \<^verbatim>\<open>created\<close> column holding them passes.
\<close>

theorem timestamp_normalization_round_trip:
  "datetime_new 2023 5 1 12 0 0 0 (Some 0) = Inr (DateTime 63818539200000000 (Some 0))
   \<and> convert_sqlite_datetime (PStr ''2023-05-01 12:00:00.000000+00'')
       = Inr (PDateTime (DateTime 63818539200000000 None))
   \<and> convert_postgres_datetime (PDateTime (DateTime 63818539200000000 (Some 0)))
       = PDateTime (DateTime 63818539200000000 None)
   \<and> compare_column
        [(''id'', PStr ''P1''), (''created'', PStr ''2023-05-01 12:00:00.000000+00'')]
        [(''id'', PStr ''P1''), (''created'', PDateTime (DateTime 63818539200000000 (Some 0)))]
        ''created'' = Inr ()"
proof -
  have a: "datetime_new 2023 5 1 12 0 0 0 (Some 0) = Inr (DateTime 63818539200000000 (Some 0))"
    by code_simp
  have b: "convert_sqlite_datetime (PStr ''2023-05-01 12:00:00.000000+00'')
       = Inr (PDateTime (DateTime 63818539200000000 None))"
    by code_simp
  have c: "convert_postgres_datetime (PDateTime (DateTime 63818539200000000 (Some 0)))
       = PDateTime (DateTime 63818539200000000 None)"
    by (simp add: convert_postgres_datetime_def)
  have d: "compare_column
        [(''id'', PStr ''P1''), (''created'', PStr ''2023-05-01 12:00:00.000000+00'')]
        [(''id'', PStr ''P1''), (''created'', PDateTime (DateTime 63818539200000000 (Some 0)))]
        ''created'' = Inr ()"
    by (simp add: compare_column_def sqlite_row_get_def pg_row_get_def is_timestamp_column_def
        b c datetime_eq_def)
  from a b c d show ?thesis by blast
qed

text \<open>
  Claim C9. In the content check a source \<^verbatim>\<open>NULL\<close> facing a target \<open>0.0\<close> passes in any
  column whatsoever (the column name is arbitrary, timestamp columns included), while a
  source \<open>0.0\<close> facing a target \<^verbatim>\<open>NULL\<close> raises the mismatch assertion.
\<close>

theorem null_equals_zero_every_column_one_direction:
  assumes "map_of sqlite_row column = Some PNone"
    and "map_of pg_row column = Some (PFloat 0)"
    and "map_of sqlite_row' column = Some (PFloat 0)"
    and "map_of pg_row' column = Some PNone"
    and "map_of sqlite_row' ''id'' = Some i"
  shows "compare_column sqlite_row pg_row column = Inr ()
     \<and> compare_column sqlite_row' pg_row' column
         = Inl (AssertionError (Field_mismatch i column (PFloat 0) PNone))"
  using assms
  by (simp add: compare_column_def sqlite_row_get_def pg_row_get_def
      convert_sqlite_datetime_not_str convert_postgres_datetime_not_datetime)

theorem null_equals_zero_every_column_one_direction_witness:
  "compare_column [(''id'', PStr ''F1''), (''title'', PNone)]
                  [(''id'', PStr ''F1''), (''title'', PFloat 0)] ''title'' = Inr ()
   \<and> compare_column [(''id'', PStr ''F1''), (''title'', PFloat 0)]
                    [(''id'', PStr ''F1''), (''title'', PNone)] ''title''
       = Inl (AssertionError (Field_mismatch (PStr ''F1'') ''title'' (PFloat 0) PNone))"
  using null_equals_zero_every_column_one_direction
    [of "[(''id'', PStr ''F1''), (''title'', PNone)]" "''title''"
        "[(''id'', PStr ''F1''), (''title'', PFloat 0)]"
        "[(''id'', PStr ''F1''), (''title'', PFloat 0)]"
        "[(''id'', PStr ''F1''), (''title'', PNone)]" "PStr ''F1''"]
  by simp

lemma compare_columns_append:
  "compare_columns sr pr cs = Inr () \<Longrightarrow> compare_columns sr pr (cs @ ds) = compare_columns sr pr ds"
  by (induction cs) (auto split: sum.splits)

lemma compare_rows_append:
  "compare_rows ps = Inr () \<Longrightarrow> compare_rows (ps @ qs) = compare_rows qs"
  by (induction ps rule: compare_rows.induct) (auto split: sum.splits)

lemma compare_column_assertion:
  "compare_column sr pr c = Inl (AssertionError a) \<Longrightarrow>
     \<exists>i sv pv. map_of sr ''id'' = Some i \<and> a = Field_mismatch i c sv pv"
  apply (auto simp: compare_column_def sqlite_row_get_def pg_row_get_def Let_def convert_sqlite_datetime_def strptime_def datetime_new_def
      split: sum.splits option.splits if_splits pyval.splits prod.splits)
  done

text \<open>
  Claim C3, as stated, fails: in the example the rows \<open>a\<close> and \<open>b\<close> both differ in
  \<^verbatim>\<open>full_name\<close>, yet the log of the run holds the mismatch of row \<open>a\<close> only.
\<close>

theorem content_check_counterexample:
  "compare_column [(''id'', PStr ''b''), (''full_name'', PStr ''Ann'')]
                  [(''id'', PStr ''b''), (''full_name'', PStr ''Anna'')] ''full_name''
     = Inl (AssertionError (Field_mismatch (PStr ''b'') ''full_name'' (PStr ''Ann'') (PStr ''Anna'')))
   \<and> fst (check_tables example_sqlite example_pg [''person''])
     = [Info_checking_table ''person'', Info_counts ''person'' 2 2, Info_count_matches ''person'',
        Info_checking_content ''person'',
        Error_logged (Field_mismatch (PStr ''a'') ''full_name'' (PStr ''Bob'') (PStr ''Bobby''))]"
  by code_simp

text \<open>
  Claim C3, amended. The content check of a table reports the first field mismatch, in
  the order of the ids and then of the columns, with the row's id and the column name, and
  stops there: whatever rows and columns follow, the table contributes exactly this one
  error record, and the verification goes on with the next table.
\<close>

theorem first_mismatch_stops_content_check:
  assumes "select_count sqlite table = select_count pg table"
    and "zip (select_order_by_id sqlite table) (select_order_by_id pg table)
           = before @ (sqlite_row, pg_row) # after"
    and "compare_rows before = Inr ()"
    and "map fst sqlite_row = cols_before @ column # cols_after"
    and "compare_columns sqlite_row pg_row cols_before = Inr ()"
    and "compare_column sqlite_row pg_row column = Inl (AssertionError a)"
  shows "(\<exists>i sv pv. map_of sqlite_row ''id'' = Some i \<and> a = Field_mismatch i column sv pv)
     \<and> check_tables sqlite pg (table # rest)
       = ([Info_checking_table table,
           Info_counts table (select_count sqlite table) (select_count pg table),
           Info_count_matches table, Info_checking_content table, Error_logged a]
          @ fst (check_tables sqlite pg rest), snd (check_tables sqlite pg rest))"
proof -
  have cols: "compare_columns sqlite_row pg_row (map fst sqlite_row) = Inl (AssertionError a)"
    using assms(4,5,6) by (simp add: compare_columns_append)
  have rows: "compare_rows (before @ (sqlite_row, pg_row) # after) = Inl (AssertionError a)"
    using assms(3) cols by (simp add: compare_rows_append)
  have len: "length (select_order_by_id sqlite table) = length (select_order_by_id pg table)"
    using assms(1) by (simp add: select_order_by_id_def select_count_def)
  have data: "compare_table_data sqlite pg table
      = ([Info_checking_content table], Inl (AssertionError a))"
    using rows len assms(2) by (simp add: compare_table_data_def Let_def)
  have tbl: "check_table sqlite pg table
      = ([Info_counts table (select_count sqlite table) (select_count pg table),
          Info_count_matches table, Info_checking_content table], Inl (AssertionError a))"
    using data assms(1) by (simp add: check_table_def compare_table_count_def Let_def)
  show ?thesis
    using tbl compare_column_assertion[OF assms(6)] by (simp split: prod.splits)
qed

text \<open>
  Claim C4, as stated, fails: with two source rows and one target row the count check fails
  and the content check of that table never starts (no \<open>Info_checking_content\<close>).
\<close>

theorem count_check_counterexample:
  "check_tables example_sqlite example_pg_short [''person'']
     = ([Info_checking_table ''person'', Info_counts ''person'' 2 1,
         Error_logged (Count_mismatch ''person'')], Inr ())"
  by code_simp

text \<open>
  Claim C4, amended. The count check runs first and the content check only when the
  count check passed: a failing count check is reported and ends the checks of that
  table, the content check being skipped. And, for any table of any two stores, an
  assertion failure of either check is logged after what the table's checks logged, and
  the verification goes on with the remaining tables.
\<close>

theorem count_failure_skips_content_check:
  "(select_count sqlite table \<noteq> select_count pg table
    \<longrightarrow> check_tables sqlite pg (table # rest)
       = ([Info_checking_table table,
           Info_counts table (select_count sqlite table) (select_count pg table),
           Error_logged (Count_mismatch table)]
          @ fst (check_tables sqlite pg rest), snd (check_tables sqlite pg rest)))
   \<and> (check_table sqlite' pg' table' = (out, Inl (AssertionError a))
    \<longrightarrow> check_tables sqlite' pg' (table' # rest')
       = (Info_checking_table table' # out @ Error_logged a # fst (check_tables sqlite' pg' rest'),
          snd (check_tables sqlite' pg' rest')))"
  by (simp add: check_table_def compare_table_count_def Let_def split: prod.splits)

lemma check_tables_append:
  "check_tables sqlite pg ts = (out, Inr ()) \<Longrightarrow>
   check_tables sqlite pg (ts @ us)
     = (out @ fst (check_tables sqlite pg us), snd (check_tables sqlite pg us))"
  by (induction ts arbitrary: out)
     (auto split: prod.splits sum.splits py_error.splits)

text \<open>
  Claim C10. A string that contains \<^verbatim>\<open>+00\<close> and does not match the format once every
  \<^verbatim>\<open>+00\<close> is removed makes \<open>convert_sqlite_datetime\<close> raise \<^verbatim>\<open>ValueError\<close>; when the
  content check of a table reaches such a value in a timestamp column (the rows and the
  columns before it compare equal), the driver does not catch the error: the run ends
  there, with nothing logged for that table's outcome nor for any table after it.
\<close>

theorem value_error_aborts_verification:
  assumes "str_contains ''+00'' v"
    and "match_format (str_replace ''+00'' [] v) = None"
    and "select_count sqlite table = select_count pg table"
    and "zip (select_order_by_id sqlite table) (select_order_by_id pg table)
           = before @ (sqlite_row, pg_row) # after"
    and "compare_rows before = Inr ()"
    and "map fst sqlite_row = cols_before @ column # cols_after"
    and "compare_columns sqlite_row pg_row cols_before = Inr ()"
    and "is_timestamp_column column"
    and "map_of sqlite_row column = Some (PStr v)"
    and "map_of pg_row column = Some w"
    and "check_tables sqlite pg earlier = (out, Inr ())"
    and "tables = earlier @ table # later"
  shows "convert_sqlite_datetime (PStr v) = Inl ValueError
     \<and> test_data_integrity sqlite pg
       = (out @ [Info_checking_table table,
                 Info_counts table (select_count sqlite table) (select_count pg table),
                 Info_count_matches table, Info_checking_content table], Inl ValueError)"
proof -
  have conv: "convert_sqlite_datetime (PStr v) = Inl ValueError"
    using assms(1,2) by (simp add: convert_sqlite_datetime_def strptime_def)
  have col: "compare_column sqlite_row pg_row column = Inl ValueError"
    using conv assms(8,9,10)
    by (simp add: compare_column_def sqlite_row_get_def pg_row_get_def)
  have cols: "compare_columns sqlite_row pg_row (map fst sqlite_row) = Inl ValueError"
    using assms(6,7) col by (simp add: compare_columns_append)
  have rows: "compare_rows (before @ (sqlite_row, pg_row) # after) = Inl ValueError"
    using assms(5) cols by (simp add: compare_rows_append)
  have len: "length (select_order_by_id sqlite table) = length (select_order_by_id pg table)"
    using assms(3) by (simp add: select_order_by_id_def select_count_def)
  have data: "compare_table_data sqlite pg table = ([Info_checking_content table], Inl ValueError)"
    using rows len assms(4) by (simp add: compare_table_data_def Let_def)
  have tbl: "check_table sqlite pg table
      = ([Info_counts table (select_count sqlite table) (select_count pg table),
          Info_count_matches table, Info_checking_content table], Inl ValueError)"
    using data assms(3) by (simp add: check_table_def compare_table_count_def Let_def)
  have step: "check_tables sqlite pg (table # later)
      = ([Info_checking_table table,
          Info_counts table (select_count sqlite table) (select_count pg table),
          Info_count_matches table, Info_checking_content table], Inl ValueError)"
    using tbl by simp
  have "check_tables sqlite pg tables
      = (out @ [Info_checking_table table,
                Info_counts table (select_count sqlite table) (select_count pg table),
                Info_count_matches table, Info_checking_content table], Inl ValueError)"
    unfolding assms(12) check_tables_append [OF assms(11)] step by simp
  then show ?thesis using conv by (simp add: test_data_integrity_def)
qed

lemma example_contains_marker: "str_contains ''+00'' ''2023-05-01 12:00:00+00''" by code_simp
lemma example_does_not_match: "match_format (str_replace ''+00'' [] ''2023-05-01 12:00:00+00'') = None" by code_simp
lemma example_earlier_tables_pass: "check_tables example_sqlite_bad_timestamp example_pg_bad_timestamp [''person'', ''genre'']
   = ([Info_checking_table ''person'', Info_counts ''person'' 0 0,
   Info_count_matches ''person'', Info_checking_content ''person'', Info_content_matches ''person'', Info_table_passed ''person'',
   Info_checking_table ''genre'', Info_counts ''genre'' 0 0,
   Info_count_matches ''genre'', Info_checking_content ''genre'',
   Info_content_matches ''genre'', Info_table_passed ''genre''], Inr ())" by code_simp


theorem value_error_aborts_verification_witness:
  "convert_sqlite_datetime (PStr ''2023-05-01 12:00:00+00'') = Inl ValueError
   \<and> test_data_integrity example_sqlite_bad_timestamp example_pg_bad_timestamp
     = ([Info_checking_table ''person'', Info_counts ''person'' 0 0,
         Info_count_matches ''person'', Info_checking_content ''person'',
         Info_content_matches ''person'', Info_table_passed ''person'',
         Info_checking_table ''genre'', Info_counts ''genre'' 0 0,
         Info_count_matches ''genre'', Info_checking_content ''genre'',
         Info_content_matches ''genre'', Info_table_passed ''genre'',
         Info_checking_table ''film_work'', Info_counts ''film_work'' 1 1,
         Info_count_matches ''film_work'', Info_checking_content ''film_work''],
        Inl ValueError)"
proof -
  let ?s = "[(''id'', PStr ''F1''), (''created'', PStr ''2023-05-01 12:00:00+00'')]"
  let ?p = "[(''id'', PStr ''F1''), (''created'', PDateTime (DateTime 63818539200000000 (Some 0)))]"
  have t: "tables = [''person'', ''genre''] @ ''film_work'' # [''genre_film_work'', ''person_film_work'']"
    by (simp add: tables_def)
  have c: "select_count example_sqlite_bad_timestamp ''film_work''
      = select_count example_pg_bad_timestamp ''film_work''"
    by (simp add: select_count_def example_sqlite_bad_timestamp_def example_pg_bad_timestamp_def)
  have z: "zip (select_order_by_id example_sqlite_bad_timestamp ''film_work'')
               (select_order_by_id example_pg_bad_timestamp ''film_work'')
      = [] @ (?s, ?p) # []"
    by (simp add: select_order_by_id_def example_sqlite_bad_timestamp_def
        example_pg_bad_timestamp_def)
  have b: "compare_rows [] = Inr ()" by simp
  have k: "map fst ?s = [''id''] @ ''created'' # []" by simp
  have cb: "compare_columns ?s ?p [''id''] = Inr ()" by code_simp
  have ts: "is_timestamp_column ''created''" by (simp add: is_timestamp_column_def)
  have ms: "map_of ?s ''created'' = Some (PStr ''2023-05-01 12:00:00+00'')" by simp
  have mp: "map_of ?p ''created'' = Some (PDateTime (DateTime 63818539200000000 (Some 0)))"
    by simp
  show ?thesis
    using value_error_aborts_verification [OF example_contains_marker example_does_not_match
        c z b k cb ts ms mp example_earlier_tables_pass t]
    by (simp add: select_count_def example_sqlite_bad_timestamp_def example_pg_bad_timestamp_def)
qed

theorem first_mismatch_stops_content_check_witness:
  "(\<exists>i sv pv. map_of [(''id'', PStr ''a''), (''full_name'', PStr ''Bob'')] ''id'' = Some i
       \<and> Field_mismatch (PStr ''a'') ''full_name'' (PStr ''Bob'') (PStr ''Bobby'')
           = Field_mismatch i ''full_name'' sv pv)
   \<and> check_tables example_sqlite example_pg [''person'']
     = ([Info_checking_table ''person'', Info_counts ''person'' 2 2, Info_count_matches ''person'',
         Info_checking_content ''person'',
         Error_logged (Field_mismatch (PStr ''a'') ''full_name'' (PStr ''Bob'') (PStr ''Bobby''))],
        Inr ())"
proof -
  have c: "select_count example_sqlite ''person'' = select_count example_pg ''person''"
    by (simp add: select_count_def example_sqlite_def example_pg_def)
  have z: "zip (select_order_by_id example_sqlite ''person'') (select_order_by_id example_pg ''person'')
      = [] @ ([(''id'', PStr ''a''), (''full_name'', PStr ''Bob'')],
              [(''id'', PStr ''a''), (''full_name'', PStr ''Bobby'')])
           # [([(''id'', PStr ''b''), (''full_name'', PStr ''Ann'')],
               [(''id'', PStr ''b''), (''full_name'', PStr ''Anna'')])]"
    by code_simp
  have b: "compare_rows [] = Inr ()" by simp
  have k: "map fst [(''id'', PStr ''a''), (''full_name'', PStr ''Bob'')] = [''id''] @ ''full_name'' # []"
    by simp
  have cb: "compare_columns [(''id'', PStr ''a''), (''full_name'', PStr ''Bob'')]
      [(''id'', PStr ''a''), (''full_name'', PStr ''Bobby'')] [''id''] = Inr ()"
    by code_simp
  have m: "compare_column [(''id'', PStr ''a''), (''full_name'', PStr ''Bob'')]
      [(''id'', PStr ''a''), (''full_name'', PStr ''Bobby'')] ''full_name''
      = Inl (AssertionError (Field_mismatch (PStr ''a'') ''full_name'' (PStr ''Bob'') (PStr ''Bobby'')))"
    by code_simp
  show ?thesis
    using first_mismatch_stops_content_check [OF c z b k cb m, of "[]"]
    by (simp add: select_count_def example_sqlite_def example_pg_def)
qed

theorem count_failure_skips_content_check_witness:
  "check_tables example_sqlite example_pg_short [''person'', ''genre'']
     = ([Info_checking_table ''person'', Info_counts ''person'' 2 1,
         Error_logged (Count_mismatch ''person''),
         Info_checking_table ''genre'', Info_counts ''genre'' 0 0, Info_count_matches ''genre'',
         Info_checking_content ''genre'', Info_content_matches ''genre'',
         Info_table_passed ''genre''], Inr ())
   \<and> check_tables example_sqlite example_pg [''person'', ''genre'']
     = ([Info_checking_table ''person'', Info_counts ''person'' 2 2, Info_count_matches ''person'',
         Info_checking_content ''person'',
         Error_logged (Field_mismatch (PStr ''a'') ''full_name'' (PStr ''Bob'') (PStr ''Bobby'')),
         Info_checking_table ''genre'', Info_counts ''genre'' 0 0, Info_count_matches ''genre'',
         Info_checking_content ''genre'', Info_content_matches ''genre'',
         Info_table_passed ''genre''], Inr ())"
proof -
  have c: "select_count example_sqlite ''person'' \<noteq> select_count example_pg_short ''person''"
    by (simp add: select_count_def example_sqlite_def example_pg_short_def)
  have t: "check_table example_sqlite example_pg ''person''
      = ([Info_counts ''person'' 2 2, Info_count_matches ''person'',
          Info_checking_content ''person''],
         Inl (AssertionError
           (Field_mismatch (PStr ''a'') ''full_name'' (PStr ''Bob'') (PStr ''Bobby''))))"
    by code_simp
  have g: "check_tables example_sqlite example_pg_short [''genre'']
      = ([Info_checking_table ''genre'', Info_counts ''genre'' 0 0, Info_count_matches ''genre'',
         Info_checking_content ''genre'', Info_content_matches ''genre'',
         Info_table_passed ''genre''], Inr ())"
    by code_simp
  have g': "check_tables example_sqlite example_pg [''genre'']
      = ([Info_checking_table ''genre'', Info_counts ''genre'' 0 0, Info_count_matches ''genre'',
         Info_checking_content ''genre'', Info_content_matches ''genre'',
         Info_table_passed ''genre''], Inr ())"
    by code_simp
  show ?thesis
    using count_failure_skips_content_check [where sqlite = example_sqlite
        and pg = example_pg_short and table = "''person''" and rest = "[''genre'']"
        and sqlite' = example_sqlite and pg' = example_pg and table' = "''person''"
        and rest' = "[''genre'']"
        and out = "[Info_counts ''person'' 2 2, Info_count_matches ''person'',
          Info_checking_content ''person'']"
        and a = "Field_mismatch (PStr ''a'') ''full_name'' (PStr ''Bob'') (PStr ''Bobby'')"]
      c t
    unfolding g g'
    by (simp add: select_count_def example_sqlite_def example_pg_short_def)
qed

section \<open>Properties of the reader\<close>

lemma batch_index_bound:
  assumes "0 < B"
  shows "j < (n + B - 1) div B \<longleftrightarrow> j * B < (n::nat)"
proof -
  have "j < (n + B - 1) div B \<longleftrightarrow> Suc j \<le> (n + B - 1) div B" by auto
  also have "\<dots> \<longleftrightarrow> Suc j * B \<le> n + B - 1"
    using assms by (simp add: less_eq_div_iff_mult_less_eq)
  also have "\<dots> \<longleftrightarrow> j * B < n" using assms by auto
  finally show ?thesis .
qed

lemma load_batches_from:
  assumes "0 < b"
  shows "load_batches rows (int (length rows)) b (int (j * nat b))
     = Some (map (\<lambda>k. take (nat b) (drop (k * nat b) rows))
          [j ..< (length rows + nat b - 1) div nat b])"
proof (induction "(length rows + nat b - 1) div nat b - j" arbitrary: j)
  case 0
  then have "\<not> j < (length rows + nat b - 1) div nat b" by simp
  then have "\<not> j * nat b < length rows"
    using assms batch_index_bound [of "nat b" j "length rows"] by simp
  then have "\<not> int (j * nat b) < int (length rows)" by linarith
  then show ?case using 0 by (subst load_batches.simps) simp
next
  case (Suc d)
  then have lt: "j < (length rows + nat b - 1) div nat b" by simp
  then have "j * nat b < length rows"
    using assms batch_index_bound [of "nat b" j "length rows"] by simp
  then have cond: "int (j * nat b) < int (length rows)" by linarith
  have next_off: "int (j * nat b) + b = int (Suc j * nat b)" using assms by simp
  have "d = (length rows + nat b - 1) div nat b - Suc j" using Suc.hyps(2) by linarith
  then have ih: "load_batches rows (int (length rows)) b (int (Suc j * nat b))
     = Some (map (\<lambda>k. take (nat b) (drop (k * nat b) rows))
          [Suc j ..< (length rows + nat b - 1) div nat b])"
    by (rule Suc.hyps(1))
  have sel: "select_limit_offset rows b (int (j * nat b)) = take (nat b) (drop (j * nat b) rows)"
    unfolding select_limit_offset_def Let_def nat_int using assms by simp
  have "load_batches rows (int (length rows)) b (int (j * nat b))
      = Option.bind (load_batches rows (int (length rows)) b (int (j * nat b) + b))
          (\<lambda>rest. Some (select_limit_offset rows b (int (j * nat b)) # rest))"
    using cond by (subst load_batches.simps) (simp only: if_True)
  also have "\<dots> = Some (take (nat b) (drop (j * nat b) rows)
        # map (\<lambda>k. take (nat b) (drop (k * nat b) rows))
            [Suc j ..< (length rows + nat b - 1) div nat b])"
    by (simp only: next_off ih sel Option.bind.simps)
  also have "\<dots> = Some (map (\<lambda>k. take (nat b) (drop (k * nat b) rows))
            [j ..< (length rows + nat b - 1) div nat b])"
    using lt by (simp add: upt_conv_Cons del: mult_Suc)
  finally show ?case .
qed

lemma concat_batches_from:
  assumes "0 < B"
  shows "concat (map (\<lambda>k. take B (drop (k * B) rows)) [j ..< (length rows + B - 1) div B])
     = drop (j * B) rows"
proof (induction "(length rows + B - 1) div B - j" arbitrary: j)
  case 0
  then have "\<not> j < (length rows + B - 1) div B" by simp
  then have "\<not> j * B < length rows"
    using assms batch_index_bound [of B j "length rows"] by simp
  then show ?case using 0 by simp
next
  case (Suc d)
  then have lt: "j < (length rows + B - 1) div B" by simp
  have "d = (length rows + B - 1) div B - Suc j" using Suc.hyps(2) by linarith
  then have ih: "concat (map (\<lambda>k. take B (drop (k * B) rows)) [Suc j ..< (length rows + B - 1) div B])
     = drop (Suc j * B) rows"
    by (rule Suc.hyps(1))
  have split: "drop (Suc j * B) rows = drop B (drop (j * B) rows)" by (simp add: add.commute)
  have "concat (map (\<lambda>k. take B (drop (k * B) rows)) [j ..< (length rows + B - 1) div B])
      = take B (drop (j * B) rows)
        @ concat (map (\<lambda>k. take B (drop (k * B) rows)) [Suc j ..< (length rows + B - 1) div B])"
    using lt by (simp add: upt_conv_Cons del: mult_Suc)
  also have "\<dots> = take B (drop (j * B) rows) @ drop B (drop (j * B) rows)"
    by (simp only: ih split)
  also have "\<dots> = drop (j * B) rows" by (rule append_take_drop_id)
  finally show ?case .
qed

lemma load_data_spec:
  assumes "0 < batch_size"
  shows "load_data rows batch_size = Some (spec_batches rows (nat batch_size))"
  using load_batches_from [OF assms, of rows 0]
  by (simp add: load_data_def spec_batches_def)

lemma concat_spec_batches:
  assumes "0 < B"
  shows "concat (spec_batches rows B) = rows"
  using concat_batches_from [OF assms, of rows 0] by (simp add: spec_batches_def)

text \<open>
  Claim C6. For a positive batch size the reader's loop ends, the batches it yields are
  those of the offset-based pagination of the specification, and their concatenation is
  the table itself: \<open>countRows\<close> rows, each source row once, in the native order.
\<close>

theorem batch_completeness:
  assumes "0 < batch_size"
  shows "load_data rows batch_size = Some (spec_batches rows (nat batch_size))
     \<and> concat (spec_batches rows (nat batch_size)) = rows
     \<and> length (concat (spec_batches rows (nat batch_size))) = length rows"
proof -
  have "0 < nat batch_size" using assms by simp
  then have "concat (spec_batches rows (nat batch_size)) = rows"
    by (rule concat_spec_batches)
  then show ?thesis using load_data_spec [OF assms] by simp
qed

lemma example_batches: "spec_batches [1, 2, 3, 4, 5 :: nat] (nat 2) = [[1, 2], [3, 4], [5]]"
  by code_simp

theorem batch_completeness_witness:
  "load_data [1, 2, 3, 4, 5 :: nat] 2 = Some [[1, 2], [3, 4], [5]]
   \<and> concat [[1, 2], [3, 4], [5 :: nat]] = [1, 2, 3, 4, 5]"
  using batch_completeness [of 2 "[1, 2, 3, 4, 5 :: nat]"] unfolding example_batches by simp

lemma load_data_1000:
  "load_data rows 1000 = Some (spec_batches rows 1000)"
  using load_data_spec [of 1000 rows] by simp

lemma spec_batches_small:
  assumes "rows \<noteq> []" and "length rows \<le> B"
  shows "spec_batches rows B = [rows]"
proof -
  have B: "0 < B" using assms by (cases rows) auto
  have "0 < (length rows + B - 1) div B"
    using assms batch_index_bound [OF B, of 0 "length rows"] by simp
  moreover have "\<not> 1 < (length rows + B - 1) div B"
    using assms batch_index_bound [OF B, of 1 "length rows"] by simp
  ultimately have "(length rows + B - 1) div B = 1" by linarith
  then show ?thesis using assms by (simp add: spec_batches_def)
qed

lemma spec_batches_Nil: "spec_batches [] B = []"
  by (cases "B = 0") (auto simp: spec_batches_def)

section \<open>Properties of the writer: one row\<close>

lemma has_id_not_null: "has_id key rows new \<Longrightarrow> key new \<noteq> PNone"
  by (induction rows) (auto simp: has_id_def sql_eq_def)

lemma has_id_append:
  "has_id key (rows @ extra) r \<longleftrightarrow> has_id key rows r \<or> has_id key extra r"
  by (auto simp: has_id_def list_ex_iff)

lemma has_id_single: "has_id key [new] r \<longleftrightarrow> sql_eq (key r) (key new)"
  by (simp add: has_id_def)

lemma has_id_same_key: "key new = key new' \<Longrightarrow> has_id key rows new = has_id key rows new'"
  by (simp add: has_id_def)

lemma has_id_ess_mono:
  assumes "\<And>a b. ess a = ess b \<Longrightarrow> key a = key b"
    and "set (map ess rows1) \<subseteq> set (map ess rows2)"
    and "has_id key rows1 r"
  shows "has_id key rows2 r"
proof -
  from assms(3) obtain old1 where o1: "old1 \<in> set rows1" "sql_eq (key r) (key old1)"
    by (auto simp: has_id_def list_ex_iff)
  then have "ess old1 \<in> set (map ess rows2)" using assms(2) by auto
  then obtain old2 where o2: "old2 \<in> set rows2" "ess old2 = ess old1" by auto
  then have "key old2 = key old1" using assms(1) by blast
  then have "sql_eq (key r) (key old2)" using o1(2) by simp
  then show ?thesis using o2(1) unfolding has_id_def list_ex_iff by blast
qed

text \<open>What a writer of a table does with one row, case by case.\<close>

lemma tw_frame:
  assumes "table_writer tbl others par ess key bad viol step"
  shows "columns (conn (step row st)) = columns (conn st)"
    and "committed (conn (step row st)) = committed (conn st)"
  using assms unfolding table_writer_def by blast+

lemma tw_fail:
  assumes "table_writer tbl others par ess key bad viol step"
    and "aborted (conn st) \<or> bad (columns (conn st)) row \<or> key row = PNone
         \<or> (\<not> has_id key (tbl (working (conn st))) row \<and> viol (working (conn st)) row)"
  shows "aborted (conn (step row st))"
    and "working (conn (step row st)) = working (conn st)"
    and "length (warnings (step row st)) = Suc (length (warnings st))"
proof -
  have "aborted (conn (step row st))
      \<and> working (conn (step row st)) = working (conn st)
      \<and> length (warnings (step row st)) = Suc (length (warnings st))"
    using assms(1) [unfolded table_writer_def, THEN conjunct2, THEN conjunct2, rule_format,
        of row st] assms(2)
    by (simp split: if_splits)
  then show "aborted (conn (step row st))"
    and "working (conn (step row st)) = working (conn st)"
    and "length (warnings (step row st)) = Suc (length (warnings st))" by blast+
qed

lemma tw_pass:
  assumes "table_writer tbl others par ess key bad viol step"
    and "\<not> (aborted (conn st) \<or> bad (columns (conn st)) row \<or> key row = PNone
         \<or> (\<not> has_id key (tbl (working (conn st))) row \<and> viol (working (conn st)) row))"
  shows "\<not> aborted (conn (step row st))"
    and "warnings (step row st) = warnings st"
    and "has_id key (tbl (working (conn st))) row
         \<Longrightarrow> working (conn (step row st)) = working (conn st)"
    and "\<not> has_id key (tbl (working (conn st))) row
         \<Longrightarrow> (\<exists>new. tbl (working (conn (step row st))) = tbl (working (conn st)) @ [new]
                    \<and> ess new = ess row)
             \<and> others (working (conn (step row st))) = others (working (conn st))
             \<and> par (working (conn (step row st))) = par (working (conn st))"
proof -
  have *: "\<not> aborted (conn (step row st))
      \<and> warnings (step row st) = warnings st
      \<and> (if has_id key (tbl (working (conn st))) row
          then working (conn (step row st)) = working (conn st)
          else (\<exists>new. tbl (working (conn (step row st))) = tbl (working (conn st)) @ [new]
                    \<and> ess new = ess row)
               \<and> others (working (conn (step row st))) = others (working (conn st))
               \<and> par (working (conn (step row st))) = par (working (conn st)))"
    using assms(1) [unfolded table_writer_def, THEN conjunct2, THEN conjunct2, rule_format,
        of row st] assms(2)
    by (simp split: if_splits)
  show "\<not> aborted (conn (step row st))" and "warnings (step row st) = warnings st"
    using * by blast+
  show "has_id key (tbl (working (conn st))) row
         \<Longrightarrow> working (conn (step row st)) = working (conn st)"
    using * by simp
  show "\<not> has_id key (tbl (working (conn st))) row
         \<Longrightarrow> (\<exists>new. tbl (working (conn (step row st))) = tbl (working (conn st)) @ [new]
                    \<and> ess new = ess row)
             \<and> others (working (conn (step row st))) = others (working (conn st))
             \<and> par (working (conn (step row st))) = par (working (conn st))"
    using * by simp
qed

lemma tw_key:
  assumes "table_writer tbl others par ess key bad viol step"
  shows "ess a = ess b \<Longrightarrow> key a = key b"
  using assms unfolding table_writer_def by blast

lemma tw_viol:
  assumes "table_writer tbl others par ess key bad viol step"
    and "set (map ess (tbl W1)) \<subseteq> set (map ess (tbl W2))" and "par W1 = par W2"
    and "viol W1 row"
  shows "viol W2 row"
  using assms unfolding table_writer_def by blast

text \<open>What one row does to the working content, in every case.\<close>

lemma tw_working:
  assumes tw: "table_writer tbl others par ess key bad viol step"
  shows "(\<exists>ys. tbl (working (conn (step row st))) = tbl (working (conn st)) @ ys
              \<and> set (map ess ys) \<subseteq> {ess row})
     \<and> (working (conn (step row st)) = working (conn st)
        \<or> others (working (conn (step row st))) = others (working (conn st))
          \<and> par (working (conn (step row st))) = par (working (conn st)))"
proof (cases "aborted (conn st) \<or> bad (columns (conn st)) row \<or> key row = PNone
         \<or> (\<not> has_id key (tbl (working (conn st))) row \<and> viol (working (conn st)) row)")
  case True
  then show ?thesis using tw_fail(2) [OF tw True] by simp
next
  case False
  show ?thesis
  proof (cases "has_id key (tbl (working (conn st))) row")
    case True
    then show ?thesis using tw_pass(3) [OF tw False] by simp
  next
    case no: False
    from tw_pass(4) [OF tw False no] show ?thesis by auto
  qed
qed

section \<open>Properties of the writer: the loop over a batch\<close>

text \<open>The loop over a batch.\<close>

lemma fold_frame:
  assumes tw: "table_writer tbl others par ess key bad viol step"
  shows "columns (conn (fold step rows st)) = columns (conn st)
     \<and> committed (conn (fold step rows st)) = committed (conn st)"
  by (induction rows arbitrary: st) (simp_all add: tw_frame [OF tw])

lemma fold_sticky:
  assumes tw: "table_writer tbl others par ess key bad viol step"
    and "aborted (conn st)"
  shows "aborted (conn (fold step rows st))"
  using assms(2)
proof (induction rows arbitrary: st)
  case Nil
  then show ?case by simp
next
  case (Cons row rows)
  have "aborted (conn (step row st))" using tw_fail(1) [OF tw] Cons.prems by blast
  then show ?case using Cons.IH by simp
qed

lemma step_warnings_mono:
  assumes tw: "table_writer tbl others par ess key bad viol step"
  shows "length (warnings st) \<le> length (warnings (step row st))"
proof (cases "aborted (conn st) \<or> bad (columns (conn st)) row \<or> key row = PNone
         \<or> (\<not> has_id key (tbl (working (conn st))) row \<and> viol (working (conn st)) row)")
  case True
  then show ?thesis using tw_fail(3) [OF tw True] by simp
next
  case False
  then show ?thesis using tw_pass(2) [OF tw False] by simp
qed

lemma fold_warnings_mono:
  assumes tw: "table_writer tbl others par ess key bad viol step"
  shows "length (warnings st) \<le> length (warnings (fold step rows st))"
proof (induction rows arbitrary: st)
  case Nil
  then show ?case by simp
next
  case (Cons row rows)
  have "length (warnings st) \<le> length (warnings (step row st))"
    by (rule step_warnings_mono [OF tw])
  then show ?case using Cons [of "step row st"] by simp
qed

lemma fold_working:
  assumes tw: "table_writer tbl others par ess key bad viol step"
  shows "(\<exists>ys. tbl (working (conn (fold step rows st))) = tbl (working (conn st)) @ ys
              \<and> set (map ess ys) \<subseteq> ess ` set rows)
     \<and> others (working (conn (fold step rows st))) = others (working (conn st))
     \<and> par (working (conn (fold step rows st))) = par (working (conn st))"
proof (induction rows arbitrary: st)
  case Nil
  then show ?case by simp
next
  case (Cons row rows)
  let ?st1 = "step row st"
  from tw_working [OF tw, of row st]
  obtain ys where ys: "tbl (working (conn ?st1)) = tbl (working (conn st)) @ ys"
      "set (map ess ys) \<subseteq> {ess row}"
    and fr: "others (working (conn ?st1)) = others (working (conn st))
          \<and> par (working (conn ?st1)) = par (working (conn st))"
    by auto
  from Cons.IH [of ?st1]
  obtain zs where zs: "tbl (working (conn (fold step rows ?st1))) = tbl (working (conn ?st1)) @ zs"
      "set (map ess zs) \<subseteq> ess ` set rows"
    and fr2: "others (working (conn (fold step rows ?st1))) = others (working (conn ?st1))
          \<and> par (working (conn (fold step rows ?st1))) = par (working (conn ?st1))"
    by auto
  have "tbl (working (conn (fold step rows ?st1))) = tbl (working (conn st)) @ (ys @ zs)"
    using ys(1) zs(1) by simp
  moreover have "set (map ess (ys @ zs)) \<subseteq> ess ` set (row # rows)"
    using ys(2) zs(2) by auto
  ultimately show ?case using fr fr2 by (simp del: append_assoc) blast
qed

text \<open>A loop that ends in a live transaction logged nothing, refused no row, and left every
  row of the batch in the table.\<close>

lemma fold_live:
  assumes tw: "table_writer tbl others par ess key bad viol step"
    and "\<not> aborted (conn (fold step rows st))"
  shows "warnings (fold step rows st) = warnings st
     \<and> (\<forall>r\<in>set rows. has_id key (tbl (working (conn (fold step rows st)))) r
                       \<and> \<not> bad (columns (conn st)) r)"
  using assms(2)
proof (induction rows arbitrary: st)
  case Nil
  then show ?case by simp
next
  case (Cons row rows)
  let ?st1 = "step row st"
  have live1: "\<not> aborted (conn ?st1)"
    using fold_sticky [OF tw, of ?st1 rows] Cons.prems by auto
  have pass: "\<not> (aborted (conn st) \<or> bad (columns (conn st)) row \<or> key row = PNone
         \<or> (\<not> has_id key (tbl (working (conn st))) row \<and> viol (working (conn st)) row))"
    using tw_fail(1) [OF tw, of st row] live1 by blast
  have w1: "warnings ?st1 = warnings st" by (rule tw_pass(2) [OF tw pass])
  have here: "has_id key (tbl (working (conn ?st1))) row"
  proof (cases "has_id key (tbl (working (conn st))) row")
    case True
    then show ?thesis using tw_pass(3) [OF tw pass] by simp
  next
    case False
    from tw_pass(4) [OF tw pass False]
    obtain new where new: "tbl (working (conn ?st1)) = tbl (working (conn st)) @ [new]"
        "ess new = ess row" by auto
    have "key new = key row" using tw_key [OF tw new(2)] .
    then have "sql_eq (key row) (key new)" using pass by (simp add: sql_eq_def)
    then show ?thesis by (simp add: new(1) has_id_append has_id_single)
  qed
  from fold_working [OF tw, of rows ?st1]
  obtain zs where zs: "tbl (working (conn (fold step rows ?st1))) = tbl (working (conn ?st1)) @ zs"
    by auto
  have later: "has_id key (tbl (working (conn (fold step rows ?st1)))) row"
    using here by (simp add: zs has_id_append)
  have rest: "warnings (fold step rows ?st1) = warnings ?st1
     \<and> (\<forall>r\<in>set rows. has_id key (tbl (working (conn (fold step rows ?st1)))) r
                       \<and> \<not> bad (columns (conn ?st1)) r)"
    using Cons.IH [of ?st1] Cons.prems by simp
  show ?case using rest later pass w1 by (simp add: tw_frame [OF tw])
qed

lemma fold_quiet_live:
  assumes tw: "table_writer tbl others par ess key bad viol step"
    and "\<not> aborted (conn st)"
    and "length (warnings (fold step rows st)) = length (warnings st)"
  shows "\<not> aborted (conn (fold step rows st))"
  using assms(2,3)
proof (induction rows arbitrary: st)
  case Nil
  then show ?case by simp
next
  case (Cons row rows)
  let ?st1 = "step row st"
  have le: "length (warnings ?st1) \<le> length (warnings (fold step rows ?st1))"
    by (rule fold_warnings_mono [OF tw])
  have pass: "\<not> (aborted (conn st) \<or> bad (columns (conn st)) row \<or> key row = PNone
         \<or> (\<not> has_id key (tbl (working (conn st))) row \<and> viol (working (conn st)) row))"
  proof
    assume f: "aborted (conn st) \<or> bad (columns (conn st)) row \<or> key row = PNone
         \<or> (\<not> has_id key (tbl (working (conn st))) row \<and> viol (working (conn st)) row)"
    have "length (warnings ?st1) = Suc (length (warnings st))" by (rule tw_fail(3) [OF tw f])
    then show False using le Cons.prems(2) by simp
  qed
  have "\<not> aborted (conn ?st1)" "warnings ?st1 = warnings st"
    using tw_pass(1,2) [OF tw pass] by simp_all
  then show ?case using Cons.IH [of ?st1] Cons.prems(2) by simp
qed

text \<open>A loop over rows whose ids are all in the table leaves the working content as it is;
  when no row is refused and the transaction is live, it changes nothing at all.\<close>

lemma fold_present_working:
  assumes tw: "table_writer tbl others par ess key bad viol step"
    and "\<forall>r\<in>set rows. has_id key (tbl (working (conn st))) r"
  shows "working (conn (fold step rows st)) = working (conn st)"
  using assms(2)
proof (induction rows arbitrary: st)
  case Nil
  then show ?case by simp
next
  case (Cons row rows)
  have here: "has_id key (tbl (working (conn st))) row" using Cons.prems by simp
  have "working (conn (step row st)) = working (conn st)"
  proof (cases "aborted (conn st) \<or> bad (columns (conn st)) row \<or> key row = PNone
         \<or> (\<not> has_id key (tbl (working (conn st))) row \<and> viol (working (conn st)) row)")
    case True
    then show ?thesis by (rule tw_fail(2) [OF tw])
  next
    case False
    then show ?thesis using tw_pass(3) [OF tw False here] by simp
  qed
  then show ?case using Cons.IH [of "step row st"] Cons.prems by simp
qed

lemma fold_present:
  assumes tw: "table_writer tbl others par ess key bad viol step"
    and "\<not> aborted (conn st)"
    and "\<forall>r\<in>set rows. has_id key (tbl (working (conn st))) r \<and> \<not> bad (columns (conn st)) r"
  shows "conn (fold step rows st) = conn st \<and> warnings (fold step rows st) = warnings st"
  using assms(2,3)
proof (induction rows arbitrary: st)
  case Nil
  then show ?case by simp
next
  case (Cons row rows)
  let ?st1 = "step row st"
  have here: "has_id key (tbl (working (conn st))) row" using Cons.prems by simp
  have pass: "\<not> (aborted (conn st) \<or> bad (columns (conn st)) row \<or> key row = PNone
         \<or> (\<not> has_id key (tbl (working (conn st))) row \<and> viol (working (conn st)) row))"
    using Cons.prems here has_id_not_null [OF here] by simp
  have "conn ?st1 = conn st"
    using tw_pass(1) [OF tw pass] tw_pass(3) [OF tw pass here] tw_frame [OF tw, of row st]
      Cons.prems(1)
    by (intro connection.equality) simp_all
  moreover have "warnings ?st1 = warnings st" by (rule tw_pass(2) [OF tw pass])
  ultimately show ?case using Cons.IH [of ?st1] Cons.prems by simp
qed

section \<open>Properties of the writer: a failed batch fails again\<close>

text \<open>
  Two transactions on the same target run the same batch. When the first sees no more of
  the table than the second, both see the same of the other tables, and a row of the batch
  that has its id in the second has it in the first, then the second fails wherever the
  first does.
\<close>

lemma fold_aborts_again:
  assumes tw: "table_writer tbl others par ess key bad viol step"
    and "columns (conn t) = columns (conn s)"
    and "\<not> aborted (conn s)"
    and "set (map ess (tbl (working (conn s)))) \<subseteq> set (map ess (tbl (working (conn t))))"
    and "par (working (conn s)) = par (working (conn t))"
    and "\<forall>r\<in>set rows. has_id key (tbl (working (conn t))) r
           \<longrightarrow> has_id key (tbl (working (conn s))) r"
    and "aborted (conn (fold step rows s))"
  shows "aborted (conn (fold step rows t))"
  using assms(2-)
proof (induction rows arbitrary: s t)
  case Nil
  then show ?case by simp
next
  case (Cons row rows)
  let ?s1 = "step row s" and ?t1 = "step row t"
  let ?fail = "\<lambda>st. aborted (conn st) \<or> bad (columns (conn st)) row \<or> key row = PNone
         \<or> (\<not> has_id key (tbl (working (conn st))) row \<and> viol (working (conn st)) row)"
  show ?case
  proof (cases "?fail t")
    case True
    have "aborted (conn ?t1)" by (rule tw_fail(1) [OF tw True])
    then show ?thesis using fold_sticky [OF tw, of ?t1 rows] by simp
  next
    case pass2: False
    have pass1: "\<not> ?fail s"
    proof
      assume f: "?fail s"
      then consider "bad (columns (conn s)) row" | "key row = PNone"
        | "\<not> has_id key (tbl (working (conn s))) row \<and> viol (working (conn s)) row"
        using Cons.prems(2) by blast
      then show False
      proof cases
        case 1
        then show ?thesis using pass2 Cons.prems(1) by simp
      next
        case 2
        then show ?thesis using pass2 by simp
      next
        case 3
        then have "\<not> has_id key (tbl (working (conn t))) row" using Cons.prems(5) by simp
        moreover have "viol (working (conn t)) row"
          using tw_viol [OF tw Cons.prems(3,4)] 3 by simp
        ultimately show ?thesis using pass2 by simp
      qed
    qed
    have cols: "columns (conn ?t1) = columns (conn ?s1)"
      using tw_frame(1) [OF tw] Cons.prems(1) by simp
    have live: "\<not> aborted (conn ?s1)" by (rule tw_pass(1) [OF tw pass1])
    have ab: "aborted (conn (fold step rows ?s1))" using Cons.prems(6) by simp
    show ?thesis
    proof (cases "has_id key (tbl (working (conn s))) row")
      case True
      have "has_id key (tbl (working (conn t))) row"
      proof (rule has_id_ess_mono [where ess = ess and key = key])
        show "ess a = ess b \<Longrightarrow> key a = key b" for a b by (rule tw_key [OF tw])
        show "set (map ess (tbl (working (conn s)))) \<subseteq> set (map ess (tbl (working (conn t))))"
          by (rule Cons.prems(3))
        show "has_id key (tbl (working (conn s))) row" by (rule True)
      qed
      then have wt: "working (conn ?t1) = working (conn t)"
        using tw_pass(3) [OF tw pass2] by simp
      have ws: "working (conn ?s1) = working (conn s)"
        using tw_pass(3) [OF tw pass1] True by simp
      have "aborted (conn (fold step rows ?t1))"
        using Cons.IH [OF cols live _ _ _ ab] Cons.prems(3,4,5) by (simp add: wt ws)
      then show ?thesis by simp
    next
      case False
      then have not_t: "\<not> has_id key (tbl (working (conn t))) row"
        using Cons.prems(5) by simp
      from tw_pass(4) [OF tw pass1 False]
      obtain n1 where n1: "tbl (working (conn ?s1)) = tbl (working (conn s)) @ [n1]"
          "ess n1 = ess row" and p1: "par (working (conn ?s1)) = par (working (conn s))"
        by auto
      from tw_pass(4) [OF tw pass2 not_t]
      obtain n2 where n2: "tbl (working (conn ?t1)) = tbl (working (conn t)) @ [n2]"
          "ess n2 = ess row" and p2: "par (working (conn ?t1)) = par (working (conn t))"
        by auto
      have k: "key n1 = key n2" using tw_key [OF tw, of n1 n2] n1(2) n2(2) by simp
      have sub: "set (map ess (tbl (working (conn ?s1))))
          \<subseteq> set (map ess (tbl (working (conn ?t1))))"
        using Cons.prems(3) n1 n2 by auto
      have par: "par (working (conn ?s1)) = par (working (conn ?t1))"
        using p1 p2 Cons.prems(4) by simp
      have ids: "\<forall>r\<in>set rows. has_id key (tbl (working (conn ?t1))) r
           \<longrightarrow> has_id key (tbl (working (conn ?s1))) r"
        using Cons.prems(5) by (auto simp: n1(1) n2(1) has_id_append has_id_single k)
      have "aborted (conn (fold step rows ?t1))"
        by (rule Cons.IH [OF cols live sub par ids ab])
      then show ?thesis by simp
    qed
  qed
qed

text \<open>A whole method: the loop, then the commit.\<close>

lemma commit_committed:
  "committed (commit c) = (if aborted c then committed c else working c)"
  "columns (commit c) = columns c" "clean (commit c)"
  by (simp_all add: commit_def clean_def)

lemma commit_clean: "clean c \<Longrightarrow> commit c = c"
  by (simp add: clean_def commit_def)

lemma batch_facts:
  assumes tw: "table_writer tbl others par ess key bad viol step"
    and save: "\<And>data st. save data st = conn_commit (fold step data st)"
  shows "clean (conn (save data st))"
    and "columns (conn (save data st)) = columns (conn st)"
    and "length (warnings st) \<le> length (warnings (save data st))"
    and "committed (conn (save data st))
         = (if aborted (conn (fold step data st)) then committed (conn st)
            else working (conn (fold step data st)))"
    and "warnings (save data st) = warnings (fold step data st)"
  using fold_frame [OF tw, of data st] fold_warnings_mono [OF tw, of st data]
  by (simp_all add: save conn_commit_def commit_committed)

lemma batch_content:
  assumes tw: "table_writer tbl others par ess key bad viol step"
    and save: "\<And>data st. save data st = conn_commit (fold step data st)"
    and "clean (conn st)"
  shows "(\<exists>ys. tbl (committed (conn (save data st))) = tbl (committed (conn st)) @ ys
              \<and> set (map ess ys) \<subseteq> ess ` set data)
     \<and> others (committed (conn (save data st))) = others (committed (conn st))
     \<and> par (committed (conn (save data st))) = par (committed (conn st))"
proof (cases "aborted (conn (fold step data st))")
  case True
  then show ?thesis by (simp add: batch_facts(4) [OF tw save])
next
  case False
  have "working (conn st) = committed (conn st)" using assms(3) by (simp add: clean_def)
  then show ?thesis
    using fold_working [OF tw, of data st] False by (simp add: batch_facts(4) [OF tw save])
qed

section \<open>Properties of the writer: the batches of a table\<close>

text \<open>All the batches of a table.\<close>

lemma table_facts:
  assumes tw: "table_writer tbl others par ess key bad viol step"
    and save: "\<And>data st. save data st = conn_commit (fold step data st)"
    and "clean (conn st)"
  shows "clean (conn (fold save bs st))"
    and "columns (conn (fold save bs st)) = columns (conn st)"
    and "length (warnings st) \<le> length (warnings (fold save bs st))"
proof -
  have "clean (conn (fold save bs st)) \<and> columns (conn (fold save bs st)) = columns (conn st)
      \<and> length (warnings st) \<le> length (warnings (fold save bs st))"
    using assms(3)
  proof (induction bs arbitrary: st)
    case Nil
    then show ?case by simp
  next
    case (Cons b bs)
    show ?case
      using Cons.IH [OF batch_facts(1) [OF tw save, where data = b and st = st]]
        batch_facts(2,3) [OF tw save, where data = b and st = st] by simp
  qed
  then show "clean (conn (fold save bs st))"
    and "columns (conn (fold save bs st)) = columns (conn st)"
    and "length (warnings st) \<le> length (warnings (fold save bs st))" by blast+
qed

lemma table_content:
  assumes tw: "table_writer tbl others par ess key bad viol step"
    and save: "\<And>data st. save data st = conn_commit (fold step data st)"
    and "clean (conn st)"
  shows "(\<exists>ys. tbl (committed (conn (fold save bs st))) = tbl (committed (conn st)) @ ys
              \<and> set (map ess ys) \<subseteq> ess ` set (concat bs))
     \<and> others (committed (conn (fold save bs st))) = others (committed (conn st))
     \<and> par (committed (conn (fold save bs st))) = par (committed (conn st))"
  using assms(3)
proof (induction bs arbitrary: st)
  case Nil
  then show ?case by simp
next
  case (Cons b bs)
  let ?st1 = "save b st"
  from batch_content [OF tw save Cons.prems, of b]
  obtain ys where ys: "tbl (committed (conn ?st1)) = tbl (committed (conn st)) @ ys"
      "set (map ess ys) \<subseteq> ess ` set b"
    and fr: "others (committed (conn ?st1)) = others (committed (conn st))"
      "par (committed (conn ?st1)) = par (committed (conn st))"
    by auto
  from Cons.IH [OF batch_facts(1) [OF tw save, where data = b and st = st]]
  obtain zs where zs: "tbl (committed (conn (fold save bs ?st1)))
        = tbl (committed (conn ?st1)) @ zs"
      "set (map ess zs) \<subseteq> ess ` set (concat bs)"
    and fr2: "others (committed (conn (fold save bs ?st1))) = others (committed (conn ?st1))"
      "par (committed (conn (fold save bs ?st1))) = par (committed (conn ?st1))"
    by auto
  have "tbl (committed (conn (fold save bs ?st1))) = tbl (committed (conn st)) @ (ys @ zs)"
    using ys(1) zs(1) by simp
  moreover have "set (map ess (ys @ zs)) \<subseteq> ess ` set (concat (b # bs))"
    using ys(2) zs(2) by (simp add: image_Un le_supI1 le_supI2)
  ultimately show ?case using fr fr2 by (simp del: append_assoc) blast
qed

text \<open>A table that logged nothing has every row of every batch in the target, and no row
  was refused.\<close>

lemma table_quiet:
  assumes tw: "table_writer tbl others par ess key bad viol step"
    and save: "\<And>data st. save data st = conn_commit (fold step data st)"
    and "clean (conn st)"
    and "length (warnings (fold save bs st)) = length (warnings st)"
  shows "warnings (fold save bs st) = warnings st
     \<and> (\<forall>r\<in>set (concat bs). has_id key (tbl (committed (conn (fold save bs st)))) r
                              \<and> \<not> bad (columns (conn st)) r)"
  using assms(3,4)
proof (induction bs arbitrary: st)
  case Nil
  then show ?case by simp
next
  case (Cons b bs)
  let ?st1 = "save b st"
  have cl1: "clean (conn ?st1)" by (rule batch_facts(1) [OF tw save])
  have le1: "length (warnings st) \<le> length (warnings ?st1)"
    by (rule batch_facts(3) [OF tw save])
  have le2: "length (warnings ?st1) \<le> length (warnings (fold save bs ?st1))"
    by (rule table_facts(3) [OF tw save cl1])
  have len1: "length (warnings ?st1) = length (warnings st)"
    using le1 le2 Cons.prems(2) by simp
  then have lenf: "length (warnings (fold step b st)) = length (warnings st)"
    by (simp add: batch_facts(5) [OF tw save])
  have live0: "\<not> aborted (conn st)" using Cons.prems(1) by (simp add: clean_def)
  have live: "\<not> aborted (conn (fold step b st))"
    by (rule fold_quiet_live [OF tw live0 lenf])
  from fold_live [OF tw live]
  have q: "warnings (fold step b st) = warnings st"
    "\<forall>r\<in>set b. has_id key (tbl (working (conn (fold step b st)))) r
                \<and> \<not> bad (columns (conn st)) r"
    by blast+
  have com: "committed (conn ?st1) = working (conn (fold step b st))"
    using live by (simp add: batch_facts(4) [OF tw save])
  from table_content [OF tw save cl1, of bs]
  obtain zs where zs: "tbl (committed (conn (fold save bs ?st1)))
        = tbl (committed (conn ?st1)) @ zs" by auto
  have first: "\<forall>r\<in>set b. has_id key (tbl (committed (conn (fold save bs ?st1)))) r
                \<and> \<not> bad (columns (conn st)) r"
    using q(2) by (simp add: zs com has_id_append)
  have rest: "warnings (fold save bs ?st1) = warnings ?st1
     \<and> (\<forall>r\<in>set (concat bs). has_id key (tbl (committed (conn (fold save bs ?st1)))) r
                              \<and> \<not> bad (columns (conn ?st1)) r)"
    using Cons.IH [OF cl1] Cons.prems(2) len1 by simp
  have w1: "warnings ?st1 = warnings st" using q(1) by (simp add: batch_facts(5) [OF tw save])
  show ?case
    using first rest w1 by (auto simp: batch_facts(2) [OF tw save])
qed

text \<open>A table all of whose rows are in the target, none of them refused, changes nothing.\<close>

lemma table_present:
  assumes tw: "table_writer tbl others par ess key bad viol step"
    and save: "\<And>data st. save data st = conn_commit (fold step data st)"
    and "clean (conn st)"
    and "\<forall>r\<in>set (concat bs). has_id key (tbl (committed (conn st))) r
                              \<and> \<not> bad (columns (conn st)) r"
  shows "conn (fold save bs st) = conn st \<and> warnings (fold save bs st) = warnings st"
  using assms(3,4)
proof (induction bs arbitrary: st)
  case Nil
  then show ?case by simp
next
  case (Cons b bs)
  have live: "\<not> aborted (conn st)" and w: "working (conn st) = committed (conn st)"
    using Cons.prems(1) by (simp_all add: clean_def)
  have "conn (fold step b st) = conn st \<and> warnings (fold step b st) = warnings st"
    using Cons.prems(2) by (intro fold_present [OF tw live]) (simp add: w)
  then have eq: "conn (save b st) = conn st" "warnings (save b st) = warnings st"
    using Cons.prems(1) by (simp_all add: save conn_commit_def commit_clean)
  have "conn (fold save bs (save b st)) = conn (save b st)
      \<and> warnings (fold save bs (save b st)) = warnings (save b st)"
    using Cons.prems by (intro Cons.IH) (simp_all add: eq)
  then show ?case by (simp add: eq)
qed

text \<open>
  The second run over a table. \<open>s\<close> is the state in which the first run began the table
  and \<open>t\<close> the state in which the second run begins it, on a target that holds the table
  as the first run left it and the parent tables as the first run saw them. Then the
  second run commits nothing.
\<close>

lemma table_again:
  assumes tw: "table_writer tbl others par ess key bad viol step"
    and save: "\<And>data st. save data st = conn_commit (fold step data st)"
    and "clean (conn s)" and "clean (conn t)"
    and "columns (conn t) = columns (conn s)"
    and "tbl (committed (conn t)) = tbl (committed (conn (fold save bs s)))"
    and "par (committed (conn t)) = par (committed (conn s))"
    and "distinct (map key (concat bs))"
  shows "committed (conn (fold save bs t)) = committed (conn t)"
  using assms(3-)
proof (induction bs arbitrary: s t)
  case Nil
  then show ?case by simp
next
  case (Cons b bs)
  let ?s1 = "save b s" and ?t1 = "save b t"
  let ?fs = "fold step b s" and ?ft = "fold step b t"
  have cls: "clean (conn ?s1)" and clt: "clean (conn ?t1)"
    by (rule batch_facts(1) [OF tw save])+
  have ws: "working (conn s) = committed (conn s)" and live_s: "\<not> aborted (conn s)"
    using Cons.prems(1) by (simp_all add: clean_def)
  have wt: "working (conn t) = committed (conn t)"
    using Cons.prems(2) by (simp add: clean_def)
  from table_content [OF tw save cls, of bs]
  obtain zs where zs: "tbl (committed (conn (fold save bs ?s1)))
        = tbl (committed (conn ?s1)) @ zs"
      "set (map ess zs) \<subseteq> ess ` set (concat bs)"
    by auto
  have final: "tbl (committed (conn t)) = tbl (committed (conn ?s1)) @ zs"
    using Cons.prems(4) zs(1) by simp
  have same: "committed (conn ?t1) = committed (conn t)"
  proof (cases "aborted (conn ?fs)")
    case False
    from fold_live [OF tw False]
    have "\<forall>r\<in>set b. has_id key (tbl (working (conn ?fs))) r" by blast
    moreover have "committed (conn ?s1) = working (conn ?fs)"
      using False by (simp add: batch_facts(4) [OF tw save])
    ultimately have "\<forall>r\<in>set b. has_id key (tbl (working (conn t))) r"
      by (simp add: wt final has_id_append)
    then have "working (conn ?ft) = working (conn t)"
      by (rule fold_present_working [OF tw])
    then show ?thesis by (simp add: batch_facts(4) [OF tw save] wt)
  next
    case True
    then have rolled: "committed (conn ?s1) = committed (conn s)"
      by (simp add: batch_facts(4) [OF tw save])
    have sub: "set (map ess (tbl (working (conn s)))) \<subseteq> set (map ess (tbl (working (conn t))))"
      by (simp add: ws wt final rolled)
    have par: "par (working (conn s)) = par (working (conn t))"
      using Cons.prems(5) by (simp add: ws wt)
    have ids: "\<forall>r\<in>set b. has_id key (tbl (working (conn t))) r
           \<longrightarrow> has_id key (tbl (working (conn s))) r"
    proof (intro ballI impI)
      fix r assume r: "r \<in> set b" and h: "has_id key (tbl (working (conn t))) r"
      show "has_id key (tbl (working (conn s))) r"
      proof (rule ccontr)
        assume "\<not> has_id key (tbl (working (conn s))) r"
        then have "has_id key zs r" using h by (simp add: wt ws final rolled has_id_append)
        then obtain old where old: "old \<in> set zs" "sql_eq (key r) (key old)"
          by (auto simp: has_id_def list_ex_iff)
        then have "ess old \<in> ess ` set (concat bs)" using zs(2) by auto
        then obtain r' where r': "r' \<in> set (concat bs)" "ess old = ess r'"
          by (rule imageE)
        have "key old = key r'" by (rule tw_key [OF tw r'(2)])
        then have "key r = key r'" using old(2) by (simp add: sql_eq_def)
        moreover have "key r \<in> set (map key b)" using r by simp
        moreover have "key r' \<in> set (map key (concat bs))" using r'(1) by simp
        ultimately show False using Cons.prems(6) by auto
      qed
    qed
    have "aborted (conn ?ft)"
      by (rule fold_aborts_again [OF tw Cons.prems(3) live_s sub par ids True])
    then show ?thesis by (simp add: batch_facts(4) [OF tw save])
  qed
  have cols: "columns (conn ?t1) = columns (conn ?s1)"
    using Cons.prems(3) by (simp add: batch_facts(2) [OF tw save])
  have tbl: "tbl (committed (conn ?t1)) = tbl (committed (conn (fold save bs ?s1)))"
    using Cons.prems(4) by (simp add: same)
  have "par (committed (conn ?s1)) = par (committed (conn s))"
    using batch_content [OF tw save Cons.prems(1), of b] by simp
  then have par: "par (committed (conn ?t1)) = par (committed (conn ?s1))"
    using Cons.prems(5) by (simp add: same)
  have dis: "distinct (map key (concat bs))" using Cons.prems(6) by simp
  have "committed (conn (fold save bs ?t1)) = committed (conn ?t1)"
    by (rule Cons.IH [OF cls clt cols tbl par dis])
  then show ?case by (simp add: same)
qed

section \<open>Properties of the writer: the five savers\<close>

text \<open>The loop bodies of the five savers are writers of their tables.\<close>

lemma try_execute_cases:
  "aborted (conn st) \<Longrightarrow>
     conn (try_execute t i stmt st) = conn st
     \<and> length (warnings (try_execute t i stmt st)) = Suc (length (warnings st))"
  "\<not> aborted (conn st) \<Longrightarrow> stmt (working (conn st)) = Inl e \<Longrightarrow>
     conn (try_execute t i stmt st) = (conn st)\<lparr>aborted := True\<rparr>
     \<and> length (warnings (try_execute t i stmt st)) = Suc (length (warnings st))"
  "\<not> aborted (conn st) \<Longrightarrow> stmt (working (conn st)) = Inr db \<Longrightarrow>
     conn (try_execute t i stmt st) = (conn st)\<lparr>working := db\<rparr>
     \<and> warnings (try_execute t i stmt st) = warnings st"
  by (simp_all add: try_execute_def execute_def)

lemma step_table_writer:
  assumes shape: "\<And>row st. step row st
        = try_execute t (rid row) (stmt (columns (conn (snd (vals row st)))) (fst (vals row st)))
            (snd (vals row st))"
    and frame: "\<And>row st. conn (snd (vals row st)) = conn st
        \<and> warnings (snd (vals row st)) = warnings st"
    and ess_vals: "\<And>row st. ess (fst (vals row st)) = ess row"
    and key_ess: "\<And>a b. ess a = ess b \<Longrightarrow> key a = key b"
    and bad_vals: "\<And>cols row st. badn cols (fst (vals row st)) = bad cols row"
    and viol_ess: "\<And>W a b. ess a = ess b \<Longrightarrow> viol W a = viol W b"
    and viol_mono: "\<And>W1 W2 row. set (map ess (tbl W1)) \<subseteq> set (map ess (tbl W2))
        \<Longrightarrow> par W1 = par W2 \<Longrightarrow> viol W1 row \<Longrightarrow> viol W2 row"
    and stmt_fail: "\<And>cols new W. badn cols new \<or> key new = PNone
        \<or> (\<not> has_id key (tbl W) new \<and> viol W new) \<Longrightarrow> \<exists>e. stmt cols new W = Inl e"
    and stmt_skip: "\<And>cols new W. \<not> badn cols new \<Longrightarrow> has_id key (tbl W) new
        \<Longrightarrow> stmt cols new W = Inr W"
    and stmt_insert: "\<And>cols new W. \<not> badn cols new \<Longrightarrow> key new \<noteq> PNone
        \<Longrightarrow> \<not> has_id key (tbl W) new \<Longrightarrow> \<not> viol W new
        \<Longrightarrow> \<exists>W'. stmt cols new W = Inr W' \<and> tbl W' = tbl W @ [new]
                \<and> others W' = others W \<and> par W' = par W"
  shows "table_writer tbl others par ess key bad viol step"
proof -
  have body: "columns (conn (step row st)) = columns (conn st)
      \<and> committed (conn (step row st)) = committed (conn st)
      \<and> (if aborted (conn st) \<or> bad (columns (conn st)) row \<or> key row = PNone
            \<or> (\<not> has_id key (tbl (working (conn st))) row \<and> viol (working (conn st)) row)
         then aborted (conn (step row st))
              \<and> working (conn (step row st)) = working (conn st)
              \<and> length (warnings (step row st)) = Suc (length (warnings st))
         else \<not> aborted (conn (step row st))
              \<and> warnings (step row st) = warnings st
              \<and> (if has_id key (tbl (working (conn st))) row
                  then working (conn (step row st)) = working (conn st)
                  else (\<exists>new. tbl (working (conn (step row st)))
                                = tbl (working (conn st)) @ [new] \<and> ess new = ess row)
                       \<and> others (working (conn (step row st))) = others (working (conn st))
                       \<and> par (working (conn (step row st))) = par (working (conn st))))"
    for row st
  proof -
    let ?new = "fst (vals row st)" and ?st1 = "snd (vals row st)"
    let ?W = "working (conn st)"
    let ?stmt = "stmt (columns (conn ?st1)) ?new"
    have c1: "conn ?st1 = conn st" and w1: "warnings ?st1 = warnings st"
      using frame [of row st] by simp_all
    have k: "key ?new = key row" by (rule key_ess [OF ess_vals])
    have h: "has_id key rows ?new = has_id key rows row" for rows
      using k by (simp add: has_id_def)
    have v: "viol W ?new = viol W row" for W by (rule viol_ess [OF ess_vals])
    have b: "badn (columns (conn st)) ?new = bad (columns (conn st)) row" by (rule bad_vals)
    show ?thesis
    proof (cases "aborted (conn st)")
      case True
      then show ?thesis
        using try_execute_cases(1) [of ?st1 t "rid row" ?stmt] by (simp add: shape c1 w1)
    next
      case live: False
      show ?thesis
      proof (cases "bad (columns (conn st)) row \<or> key row = PNone
            \<or> (\<not> has_id key (tbl ?W) row \<and> viol ?W row)")
        case True
        then obtain e where "stmt (columns (conn st)) ?new ?W = Inl e"
          using stmt_fail [of "columns (conn st)" ?new ?W] by (auto simp: k h v b)
        then show ?thesis
          using try_execute_cases(2) [of ?st1 ?stmt e t "rid row"] live True
          by (simp add: shape c1 w1)
      next
        case pass: False
        show ?thesis
        proof (cases "has_id key (tbl ?W) row")
          case True
          then have "stmt (columns (conn st)) ?new ?W = Inr ?W"
            using stmt_skip [of "columns (conn st)" ?new ?W] pass by (simp add: h b)
          then show ?thesis
            using try_execute_cases(3) [of ?st1 ?stmt ?W t "rid row"] live pass True
            by (simp add: shape c1 w1)
        next
          case False
          then obtain W' where W': "stmt (columns (conn st)) ?new ?W = Inr W'"
              "tbl W' = tbl ?W @ [?new]" "others W' = others ?W" "par W' = par ?W"
            using stmt_insert [of "columns (conn st)" ?new ?W] pass by (auto simp: k h v b)
          have "tbl W' = tbl ?W @ [?new] \<and> ess ?new = ess row" using W'(2) ess_vals by simp
          then have "\<exists>new. tbl W' = tbl ?W @ [new] \<and> ess new = ess row" by blast
          then show ?thesis
            using try_execute_cases(3) [of ?st1 ?stmt W' t "rid row"] live pass False W'
            by (simp add: shape c1 w1)
        qed
      qed
    qed
  qed
  show ?thesis
    unfolding table_writer_def using key_ess viol_mono body by blast
qed

lemma takes_timestamp:
  "takes cols t (''created'', PDateTime d)" "takes cols t (''modified'', PDateTime d)"
  by (simp_all add: takes_def is_timestamp_column_def)

lemma or_now_frame:
  "conn (snd (or_now v st)) = conn st" "warnings (snd (or_now v st)) = warnings st"
  by (simp_all add: or_now_def datetime_now_def)

lemma if_not_none_else_now_frame:
  "conn (snd (if_not_none_else_now v st)) = conn st"
  "warnings (snd (if_not_none_else_now v st)) = warnings st"
  by (simp_all add: if_not_none_else_now_def datetime_now_def)

lemma person_values_frame:
  "conn (snd (person_values row st)) = conn st"
  "warnings (snd (person_values row st)) = warnings st"
  "p_id (fst (person_values row st)) = p_id row"
  by (simp_all add: person_values_def or_now_frame split_beta Let_def)

lemma person_rejected_same:
  "rejected_column cols ''person'' (person_columns (fst (person_values row st)))
     = rejected_column cols ''person'' (person_columns (fst (person_values row st')))"
  by (simp add: person_values_def person_columns_def or_now_def datetime_now_def split_beta
      takes_timestamp)

lemma insert_person_spec:
  "rejected_column cols ''person'' (person_columns new) \<noteq> None \<or> p_id new = PNone
     \<Longrightarrow> \<exists>e. insert_person cols new W = Inl e"
  "rejected_column cols ''person'' (person_columns new) = None \<Longrightarrow> has_id p_id (person W) new
     \<Longrightarrow> insert_person cols new W = Inr W"
  "rejected_column cols ''person'' (person_columns new) = None \<Longrightarrow> p_id new \<noteq> PNone
     \<Longrightarrow> \<not> has_id p_id (person W) new
     \<Longrightarrow> insert_person cols new W = Inr (W\<lparr>person := person W @ [new]\<rparr>)"
  using has_id_not_null [of p_id "person W" new]
  by (auto simp: insert_person_def insert_on_conflict_do_nothing_def has_id_def
      split: option.splits)

lemma save_person_writer:
  "table_writer person
     (\<lambda>db. (genre db, film_work db, person_film_work db, genre_film_work db)) (\<lambda>db. ())
     p_id p_id refused_person (\<lambda>W row. False) save_person"
proof (rule step_table_writer [where vals = person_values and stmt = insert_person
      and t = "''person''" and rid = p_id
      and badn = "\<lambda>cols new. rejected_column cols ''person'' (person_columns new) \<noteq> None"])
  show "save_person row st = try_execute ''person'' (p_id row)
      (insert_person (columns (conn (snd (person_values row st)))) (fst (person_values row st)))
      (snd (person_values row st))" for row st
    by (simp add: save_person_def split_beta)
  show "(rejected_column cols ''person'' (person_columns (fst (person_values row st))) \<noteq> None)
      = refused_person cols row" for cols row st
    unfolding refused_person_def using person_rejected_same [of cols row st] by metis
  show "\<exists>W'. insert_person cols new W = Inr W' \<and> person W' = person W @ [new]
      \<and> (genre W', film_work W', person_film_work W', genre_film_work W')
        = (genre W, film_work W, person_film_work W, genre_film_work W) \<and> () = ()"
    if "\<not> rejected_column cols ''person'' (person_columns new) \<noteq> None" "p_id new \<noteq> PNone"
      "\<not> has_id p_id (person W) new" for cols new W
    using insert_person_spec(3) [of cols new W] that by simp
qed (use insert_person_spec in \<open>auto simp: person_values_frame\<close>)

lemma genre_values_frame:
  "conn (snd (genre_values row st)) = conn st"
  "warnings (snd (genre_values row st)) = warnings st"
  "g_id (fst (genre_values row st)) = g_id row"
  "g_name (fst (genre_values row st)) = g_name row"
  by (simp_all add: genre_values_def or_now_frame split_beta Let_def)

lemma genre_rejected_same:
  "rejected_column cols ''genre'' (genre_columns (fst (genre_values row st)))
     = rejected_column cols ''genre'' (genre_columns (fst (genre_values row st')))"
  by (simp add: genre_values_def genre_columns_def or_now_def datetime_now_def split_beta
      takes_timestamp)

lemma insert_genre_spec:
  "rejected_column cols ''genre'' (genre_columns new) \<noteq> None \<or> g_id new = PNone
     \<or> (\<not> has_id g_id (genre W) new \<and> list_ex (\<lambda>old. sql_eq (g_name new) (g_name old)) (genre W))
     \<Longrightarrow> \<exists>e. insert_genre cols new W = Inl e"
  "rejected_column cols ''genre'' (genre_columns new) = None \<Longrightarrow> has_id g_id (genre W) new
     \<Longrightarrow> insert_genre cols new W = Inr W"
  "rejected_column cols ''genre'' (genre_columns new) = None \<Longrightarrow> g_id new \<noteq> PNone
     \<Longrightarrow> \<not> has_id g_id (genre W) new
     \<Longrightarrow> \<not> list_ex (\<lambda>old. sql_eq (g_name new) (g_name old)) (genre W)
     \<Longrightarrow> insert_genre cols new W = Inr (W\<lparr>genre := genre W @ [new]\<rparr>)"
  using has_id_not_null [of g_id "genre W" new]
  by (auto simp: insert_genre_def insert_on_conflict_do_nothing_def has_id_def
      split: option.splits)

lemma save_genre_writer:
  "table_writer genre
     (\<lambda>db. (person db, film_work db, person_film_work db, genre_film_work db)) (\<lambda>db. ())
     (\<lambda>r. (g_id r, g_name r)) g_id refused_genre
     (\<lambda>W row. list_ex (\<lambda>old. sql_eq (g_name row) (g_name old)) (genre W)) save_genre"
proof (rule step_table_writer [where vals = genre_values and stmt = insert_genre
      and t = "''genre''" and rid = g_id
      and badn = "\<lambda>cols new. rejected_column cols ''genre'' (genre_columns new) \<noteq> None"])
  show "save_genre row st = try_execute ''genre'' (g_id row)
      (insert_genre (columns (conn (snd (genre_values row st)))) (fst (genre_values row st)))
      (snd (genre_values row st))" for row st
    by (simp add: save_genre_def split_beta)
  show "(rejected_column cols ''genre'' (genre_columns (fst (genre_values row st))) \<noteq> None)
      = refused_genre cols row" for cols row st
    unfolding refused_genre_def using genre_rejected_same [of cols row st] by metis
  show "list_ex (\<lambda>old. sql_eq (g_name row) (g_name old)) (genre W2)"
    if "set (map (\<lambda>r. (g_id r, g_name r)) (genre W1)) \<subseteq> set (map (\<lambda>r. (g_id r, g_name r)) (genre W2))"
      "list_ex (\<lambda>old. sql_eq (g_name row) (g_name old)) (genre W1)" for W1 W2 row
  proof -
    from that(2) obtain o1 where o1: "o1 \<in> set (genre W1)" "sql_eq (g_name row) (g_name o1)"
      by (auto simp: list_ex_iff)
    then have "(g_id o1, g_name o1) \<in> set (map (\<lambda>r. (g_id r, g_name r)) (genre W2))"
      using that(1) by auto
    then obtain o2 where o2: "o2 \<in> set (genre W2)" "g_name o2 = g_name o1" by auto
    have "sql_eq (g_name row) (g_name o2)" using o2(2) o1(2) by simp
    then show ?thesis using o2(1) by (auto simp: list_ex_iff)
  qed
  show "\<exists>W'. insert_genre cols new W = Inr W' \<and> genre W' = genre W @ [new]
      \<and> (person W', film_work W', person_film_work W', genre_film_work W')
        = (person W, film_work W, person_film_work W, genre_film_work W) \<and> () = ()"
    if "\<not> rejected_column cols ''genre'' (genre_columns new) \<noteq> None" "g_id new \<noteq> PNone"
      "\<not> has_id g_id (genre W) new"
      "\<not> list_ex (\<lambda>old. sql_eq (g_name new) (g_name old)) (genre W)" for cols new W
    using insert_genre_spec(3) [of cols new W] that by simp
qed (use insert_genre_spec in \<open>auto simp: genre_values_frame\<close>)

lemma film_work_values_frame:
  "conn (snd (film_work_values row st)) = conn st"
  "warnings (snd (film_work_values row st)) = warnings st"
  "fw_id (fst (film_work_values row st)) = fw_id row"
  by (simp_all add: film_work_values_def or_now_frame split_beta Let_def)

lemma film_work_rejected_same:
  "rejected_column cols ''film_work'' (film_work_columns (fst (film_work_values row st)))
     = rejected_column cols ''film_work'' (film_work_columns (fst (film_work_values row st')))"
  by (simp add: film_work_values_def film_work_columns_def or_now_def datetime_now_def
      split_beta takes_timestamp)

lemma insert_film_work_spec:
  "rejected_column cols ''film_work'' (film_work_columns new) \<noteq> None \<or> fw_id new = PNone
     \<Longrightarrow> \<exists>e. insert_film_work cols new W = Inl e"
  "rejected_column cols ''film_work'' (film_work_columns new) = None
     \<Longrightarrow> has_id fw_id (film_work W) new \<Longrightarrow> insert_film_work cols new W = Inr W"
  "rejected_column cols ''film_work'' (film_work_columns new) = None \<Longrightarrow> fw_id new \<noteq> PNone
     \<Longrightarrow> \<not> has_id fw_id (film_work W) new
     \<Longrightarrow> insert_film_work cols new W = Inr (W\<lparr>film_work := film_work W @ [new]\<rparr>)"
  using has_id_not_null [of fw_id "film_work W" new]
  by (auto simp: insert_film_work_def insert_on_conflict_do_nothing_def has_id_def
      split: option.splits)

lemma save_film_work_writer:
  "table_writer film_work
     (\<lambda>db. (person db, genre db, person_film_work db, genre_film_work db)) (\<lambda>db. ())
     fw_id fw_id refused_film_work (\<lambda>W row. False) save_film_work"
proof (rule step_table_writer [where vals = film_work_values and stmt = insert_film_work
      and t = "''film_work''" and rid = fw_id
      and badn = "\<lambda>cols new. rejected_column cols ''film_work'' (film_work_columns new) \<noteq> None"])
  show "save_film_work row st = try_execute ''film_work'' (fw_id row)
      (insert_film_work (columns (conn (snd (film_work_values row st))))
        (fst (film_work_values row st)))
      (snd (film_work_values row st))" for row st
    by (simp add: save_film_work_def split_beta)
  show "(rejected_column cols ''film_work'' (film_work_columns (fst (film_work_values row st)))
        \<noteq> None) = refused_film_work cols row" for cols row st
    unfolding refused_film_work_def using film_work_rejected_same [of cols row st] by metis
  show "\<exists>W'. insert_film_work cols new W = Inr W' \<and> film_work W' = film_work W @ [new]
      \<and> (person W', genre W', person_film_work W', genre_film_work W')
        = (person W, genre W, person_film_work W, genre_film_work W) \<and> () = ()"
    if "\<not> rejected_column cols ''film_work'' (film_work_columns new) \<noteq> None"
      "fw_id new \<noteq> PNone" "\<not> has_id fw_id (film_work W) new" for cols new W
    using insert_film_work_spec(3) [of cols new W] that by simp
qed (use insert_film_work_spec in \<open>auto simp: film_work_values_frame\<close>)

lemma person_film_work_values_frame:
  "conn (snd (person_film_work_values row st)) = conn st"
  "warnings (snd (person_film_work_values row st)) = warnings st"
  "pfw_id (fst (person_film_work_values row st)) = pfw_id row"
  "pfw_film_work_id (fst (person_film_work_values row st)) = pfw_film_work_id row"
  "pfw_person_id (fst (person_film_work_values row st)) = pfw_person_id row"
  "pfw_role (fst (person_film_work_values row st)) = pfw_role row"
  by (simp_all add: person_film_work_values_def if_not_none_else_now_frame split_beta Let_def)

lemma person_film_work_rejected_same:
  "rejected_column cols ''person_film_work''
       (person_film_work_columns (fst (person_film_work_values row st)))
     = rejected_column cols ''person_film_work''
       (person_film_work_columns (fst (person_film_work_values row st')))"
  by (simp add: person_film_work_values_def person_film_work_columns_def
      if_not_none_else_now_def datetime_now_def split_beta takes_timestamp)

lemma insert_person_film_work_spec:
  "rejected_column cols ''person_film_work'' (person_film_work_columns new) \<noteq> None
     \<or> pfw_id new = PNone
     \<or> (\<not> has_id pfw_id (person_film_work W) new
         \<and> (list_ex (\<lambda>old. sql_eq (pfw_film_work_id new) (pfw_film_work_id old)
                           \<and> sql_eq (pfw_person_id new) (pfw_person_id old)
                           \<and> sql_eq (pfw_role new) (pfw_role old)) (person_film_work W)
            \<or> \<not> references (pfw_film_work_id new) (map fw_id (film_work W))
            \<or> \<not> references (pfw_person_id new) (map p_id (person W))))
     \<Longrightarrow> \<exists>e. insert_person_film_work cols new W = Inl e"
  "rejected_column cols ''person_film_work'' (person_film_work_columns new) = None
     \<Longrightarrow> has_id pfw_id (person_film_work W) new
     \<Longrightarrow> insert_person_film_work cols new W = Inr W"
  "rejected_column cols ''person_film_work'' (person_film_work_columns new) = None
     \<Longrightarrow> pfw_id new \<noteq> PNone \<Longrightarrow> \<not> has_id pfw_id (person_film_work W) new
     \<Longrightarrow> \<not> (list_ex (\<lambda>old. sql_eq (pfw_film_work_id new) (pfw_film_work_id old)
                           \<and> sql_eq (pfw_person_id new) (pfw_person_id old)
                           \<and> sql_eq (pfw_role new) (pfw_role old)) (person_film_work W)
            \<or> \<not> references (pfw_film_work_id new) (map fw_id (film_work W))
            \<or> \<not> references (pfw_person_id new) (map p_id (person W)))
     \<Longrightarrow> insert_person_film_work cols new W
         = Inr (W\<lparr>person_film_work := person_film_work W @ [new]\<rparr>)"
  using has_id_not_null [of pfw_id "person_film_work W" new]
  by (auto simp: insert_person_film_work_def insert_on_conflict_do_nothing_def has_id_def
      split: option.splits)

lemma save_person_film_work_row_writer:
  "table_writer person_film_work
     (\<lambda>db. (person db, genre db, film_work db, genre_film_work db))
     (\<lambda>db. (map fw_id (film_work db), map p_id (person db)))
     (\<lambda>r. (pfw_id r, pfw_film_work_id r, pfw_person_id r, pfw_role r)) pfw_id
     refused_person_film_work
     (\<lambda>W row. list_ex (\<lambda>old. sql_eq (pfw_film_work_id row) (pfw_film_work_id old)
                           \<and> sql_eq (pfw_person_id row) (pfw_person_id old)
                           \<and> sql_eq (pfw_role row) (pfw_role old)) (person_film_work W)
            \<or> \<not> references (pfw_film_work_id row) (map fw_id (film_work W))
            \<or> \<not> references (pfw_person_id row) (map p_id (person W)))
     save_person_film_work_row"
proof (rule step_table_writer [where vals = person_film_work_values
      and stmt = insert_person_film_work and t = "''person_film_work''" and rid = pfw_id
      and badn = "\<lambda>cols new. rejected_column cols ''person_film_work''
          (person_film_work_columns new) \<noteq> None"])
  show "save_person_film_work_row row st = try_execute ''person_film_work'' (pfw_id row)
      (insert_person_film_work (columns (conn (snd (person_film_work_values row st))))
        (fst (person_film_work_values row st)))
      (snd (person_film_work_values row st))" for row st
    by (simp add: save_person_film_work_row_def split_beta)
  show "(rejected_column cols ''person_film_work''
          (person_film_work_columns (fst (person_film_work_values row st))) \<noteq> None)
      = refused_person_film_work cols row" for cols row st
    unfolding refused_person_film_work_def
    using person_film_work_rejected_same [of cols row st] by metis
  show "list_ex (\<lambda>old. sql_eq (pfw_film_work_id row) (pfw_film_work_id old)
                           \<and> sql_eq (pfw_person_id row) (pfw_person_id old)
                           \<and> sql_eq (pfw_role row) (pfw_role old)) (person_film_work W2)
            \<or> \<not> references (pfw_film_work_id row) (map fw_id (film_work W2))
            \<or> \<not> references (pfw_person_id row) (map p_id (person W2))"
    if sub: "set (map (\<lambda>r. (pfw_id r, pfw_film_work_id r, pfw_person_id r, pfw_role r))
               (person_film_work W1))
          \<subseteq> set (map (\<lambda>r. (pfw_id r, pfw_film_work_id r, pfw_person_id r, pfw_role r))
               (person_film_work W2))"
      and par: "(map fw_id (film_work W1), map p_id (person W1))
          = (map fw_id (film_work W2), map p_id (person W2))"
      and v: "list_ex (\<lambda>old. sql_eq (pfw_film_work_id row) (pfw_film_work_id old)
                           \<and> sql_eq (pfw_person_id row) (pfw_person_id old)
                           \<and> sql_eq (pfw_role row) (pfw_role old)) (person_film_work W1)
            \<or> \<not> references (pfw_film_work_id row) (map fw_id (film_work W1))
            \<or> \<not> references (pfw_person_id row) (map p_id (person W1))" for W1 W2 row
  proof (cases "list_ex (\<lambda>old. sql_eq (pfw_film_work_id row) (pfw_film_work_id old)
                           \<and> sql_eq (pfw_person_id row) (pfw_person_id old)
                           \<and> sql_eq (pfw_role row) (pfw_role old)) (person_film_work W1)")
    case True
    then obtain o1 where o1: "o1 \<in> set (person_film_work W1)"
        "sql_eq (pfw_film_work_id row) (pfw_film_work_id o1)"
        "sql_eq (pfw_person_id row) (pfw_person_id o1)" "sql_eq (pfw_role row) (pfw_role o1)"
      by (auto simp: list_ex_iff)
    then have "(pfw_id o1, pfw_film_work_id o1, pfw_person_id o1, pfw_role o1)
        \<in> set (map (\<lambda>r. (pfw_id r, pfw_film_work_id r, pfw_person_id r, pfw_role r))
               (person_film_work W2))"
      using sub by auto
    then obtain o2 where o2: "o2 \<in> set (person_film_work W2)"
        "pfw_film_work_id o2 = pfw_film_work_id o1" "pfw_person_id o2 = pfw_person_id o1"
        "pfw_role o2 = pfw_role o1" by auto
    have "sql_eq (pfw_film_work_id row) (pfw_film_work_id o2)
        \<and> sql_eq (pfw_person_id row) (pfw_person_id o2)
        \<and> sql_eq (pfw_role row) (pfw_role o2)"
      using o1 o2 by simp
    then show ?thesis using o2(1) by (auto simp: list_ex_iff)
  next
    case False
    then show ?thesis using v par by simp
  qed
  show "\<exists>W'. insert_person_film_work cols new W = Inr W'
      \<and> person_film_work W' = person_film_work W @ [new]
      \<and> (person W', genre W', film_work W', genre_film_work W')
        = (person W, genre W, film_work W, genre_film_work W)
      \<and> (map fw_id (film_work W'), map p_id (person W'))
        = (map fw_id (film_work W), map p_id (person W))"
    if "\<not> rejected_column cols ''person_film_work'' (person_film_work_columns new) \<noteq> None"
      "pfw_id new \<noteq> PNone" "\<not> has_id pfw_id (person_film_work W) new"
      "\<not> (list_ex (\<lambda>old. sql_eq (pfw_film_work_id new) (pfw_film_work_id old)
                           \<and> sql_eq (pfw_person_id new) (pfw_person_id old)
                           \<and> sql_eq (pfw_role new) (pfw_role old)) (person_film_work W)
            \<or> \<not> references (pfw_film_work_id new) (map fw_id (film_work W))
            \<or> \<not> references (pfw_person_id new) (map p_id (person W)))" for cols new W
    using insert_person_film_work_spec(3) [of cols new W] that by simp
  show "\<exists>e. insert_person_film_work cols new W = Inl e"
    if "rejected_column cols ''person_film_work'' (person_film_work_columns new) \<noteq> None
     \<or> pfw_id new = PNone
     \<or> (\<not> has_id pfw_id (person_film_work W) new
         \<and> (list_ex (\<lambda>old. sql_eq (pfw_film_work_id new) (pfw_film_work_id old)
                           \<and> sql_eq (pfw_person_id new) (pfw_person_id old)
                           \<and> sql_eq (pfw_role new) (pfw_role old)) (person_film_work W)
            \<or> \<not> references (pfw_film_work_id new) (map fw_id (film_work W))
            \<or> \<not> references (pfw_person_id new) (map p_id (person W))))" for cols new W
    using insert_person_film_work_spec(1) [of cols new W] that by blast
qed (use insert_person_film_work_spec(2) in \<open>auto simp: person_film_work_values_frame\<close>)

lemma genre_film_work_values_frame:
  "conn (snd (genre_film_work_values row st)) = conn st"
  "warnings (snd (genre_film_work_values row st)) = warnings st"
  "gfw_id (fst (genre_film_work_values row st)) = gfw_id row"
  "gfw_film_work_id (fst (genre_film_work_values row st)) = gfw_film_work_id row"
  "gfw_genre_id (fst (genre_film_work_values row st)) = gfw_genre_id row"
  by (simp_all add: genre_film_work_values_def if_not_none_else_now_frame split_beta Let_def)

lemma genre_film_work_rejected_same:
  "rejected_column cols ''genre_film_work''
       (genre_film_work_columns (fst (genre_film_work_values row st)))
     = rejected_column cols ''genre_film_work''
       (genre_film_work_columns (fst (genre_film_work_values row st')))"
  by (simp add: genre_film_work_values_def genre_film_work_columns_def
      if_not_none_else_now_def datetime_now_def split_beta takes_timestamp)

lemma insert_genre_film_work_spec:
  "rejected_column cols ''genre_film_work'' (genre_film_work_columns new) \<noteq> None
     \<or> gfw_id new = PNone
     \<or> (\<not> has_id gfw_id (genre_film_work W) new
         \<and> (list_ex (\<lambda>old. sql_eq (gfw_genre_id new) (gfw_genre_id old)
                           \<and> sql_eq (gfw_film_work_id new) (gfw_film_work_id old))
               (genre_film_work W)
            \<or> \<not> references (gfw_film_work_id new) (map fw_id (film_work W))
            \<or> \<not> references (gfw_genre_id new) (map g_id (genre W))))
     \<Longrightarrow> \<exists>e. insert_genre_film_work cols new W = Inl e"
  "rejected_column cols ''genre_film_work'' (genre_film_work_columns new) = None
     \<Longrightarrow> has_id gfw_id (genre_film_work W) new
     \<Longrightarrow> insert_genre_film_work cols new W = Inr W"
  "rejected_column cols ''genre_film_work'' (genre_film_work_columns new) = None
     \<Longrightarrow> gfw_id new \<noteq> PNone \<Longrightarrow> \<not> has_id gfw_id (genre_film_work W) new
     \<Longrightarrow> \<not> (list_ex (\<lambda>old. sql_eq (gfw_genre_id new) (gfw_genre_id old)
                           \<and> sql_eq (gfw_film_work_id new) (gfw_film_work_id old))
               (genre_film_work W)
            \<or> \<not> references (gfw_film_work_id new) (map fw_id (film_work W))
            \<or> \<not> references (gfw_genre_id new) (map g_id (genre W)))
     \<Longrightarrow> insert_genre_film_work cols new W
         = Inr (W\<lparr>genre_film_work := genre_film_work W @ [new]\<rparr>)"
  using has_id_not_null [of gfw_id "genre_film_work W" new]
  by (auto simp: insert_genre_film_work_def insert_on_conflict_do_nothing_def has_id_def
      split: option.splits)

lemma save_genre_film_work_row_writer:
  "table_writer genre_film_work
     (\<lambda>db. (person db, genre db, film_work db, person_film_work db))
     (\<lambda>db. (map fw_id (film_work db), map g_id (genre db)))
     (\<lambda>r. (gfw_id r, gfw_genre_id r, gfw_film_work_id r)) gfw_id
     refused_genre_film_work
     (\<lambda>W row. list_ex (\<lambda>old. sql_eq (gfw_genre_id row) (gfw_genre_id old)
                           \<and> sql_eq (gfw_film_work_id row) (gfw_film_work_id old))
               (genre_film_work W)
            \<or> \<not> references (gfw_film_work_id row) (map fw_id (film_work W))
            \<or> \<not> references (gfw_genre_id row) (map g_id (genre W)))
     save_genre_film_work_row"
proof (rule step_table_writer [where vals = genre_film_work_values
      and stmt = insert_genre_film_work and t = "''genre_film_work''" and rid = gfw_id
      and badn = "\<lambda>cols new. rejected_column cols ''genre_film_work''
          (genre_film_work_columns new) \<noteq> None"])
  show "save_genre_film_work_row row st = try_execute ''genre_film_work'' (gfw_id row)
      (insert_genre_film_work (columns (conn (snd (genre_film_work_values row st))))
        (fst (genre_film_work_values row st)))
      (snd (genre_film_work_values row st))" for row st
    by (simp add: save_genre_film_work_row_def split_beta)
  show "(rejected_column cols ''genre_film_work''
          (genre_film_work_columns (fst (genre_film_work_values row st))) \<noteq> None)
      = refused_genre_film_work cols row" for cols row st
    unfolding refused_genre_film_work_def
    using genre_film_work_rejected_same [of cols row st] by metis
  show "list_ex (\<lambda>old. sql_eq (gfw_genre_id row) (gfw_genre_id old)
                           \<and> sql_eq (gfw_film_work_id row) (gfw_film_work_id old))
               (genre_film_work W2)
            \<or> \<not> references (gfw_film_work_id row) (map fw_id (film_work W2))
            \<or> \<not> references (gfw_genre_id row) (map g_id (genre W2))"
    if sub: "set (map (\<lambda>r. (gfw_id r, gfw_genre_id r, gfw_film_work_id r)) (genre_film_work W1))
          \<subseteq> set (map (\<lambda>r. (gfw_id r, gfw_genre_id r, gfw_film_work_id r)) (genre_film_work W2))"
      and par: "(map fw_id (film_work W1), map g_id (genre W1))
          = (map fw_id (film_work W2), map g_id (genre W2))"
      and v: "list_ex (\<lambda>old. sql_eq (gfw_genre_id row) (gfw_genre_id old)
                           \<and> sql_eq (gfw_film_work_id row) (gfw_film_work_id old))
               (genre_film_work W1)
            \<or> \<not> references (gfw_film_work_id row) (map fw_id (film_work W1))
            \<or> \<not> references (gfw_genre_id row) (map g_id (genre W1))" for W1 W2 row
  proof (cases "list_ex (\<lambda>old. sql_eq (gfw_genre_id row) (gfw_genre_id old)
                           \<and> sql_eq (gfw_film_work_id row) (gfw_film_work_id old))
               (genre_film_work W1)")
    case True
    then obtain o1 where o1: "o1 \<in> set (genre_film_work W1)"
        "sql_eq (gfw_genre_id row) (gfw_genre_id o1)"
        "sql_eq (gfw_film_work_id row) (gfw_film_work_id o1)"
      by (auto simp: list_ex_iff)
    then have "(gfw_id o1, gfw_genre_id o1, gfw_film_work_id o1)
        \<in> set (map (\<lambda>r. (gfw_id r, gfw_genre_id r, gfw_film_work_id r)) (genre_film_work W2))"
      using sub by auto
    then obtain o2 where o2: "o2 \<in> set (genre_film_work W2)"
        "gfw_genre_id o2 = gfw_genre_id o1" "gfw_film_work_id o2 = gfw_film_work_id o1"
      by auto
    have "sql_eq (gfw_genre_id row) (gfw_genre_id o2)
        \<and> sql_eq (gfw_film_work_id row) (gfw_film_work_id o2)"
      using o1 o2 by simp
    then show ?thesis using o2(1) by (auto simp: list_ex_iff)
  next
    case False
    then show ?thesis using v par by simp
  qed
  show "\<exists>W'. insert_genre_film_work cols new W = Inr W'
      \<and> genre_film_work W' = genre_film_work W @ [new]
      \<and> (person W', genre W', film_work W', person_film_work W')
        = (person W, genre W, film_work W, person_film_work W)
      \<and> (map fw_id (film_work W'), map g_id (genre W'))
        = (map fw_id (film_work W), map g_id (genre W))"
    if "\<not> rejected_column cols ''genre_film_work'' (genre_film_work_columns new) \<noteq> None"
      "gfw_id new \<noteq> PNone" "\<not> has_id gfw_id (genre_film_work W) new"
      "\<not> (list_ex (\<lambda>old. sql_eq (gfw_genre_id new) (gfw_genre_id old)
                           \<and> sql_eq (gfw_film_work_id new) (gfw_film_work_id old))
               (genre_film_work W)
            \<or> \<not> references (gfw_film_work_id new) (map fw_id (film_work W))
            \<or> \<not> references (gfw_genre_id new) (map g_id (genre W)))" for cols new W
    using insert_genre_film_work_spec(3) [of cols new W] that by simp
  show "\<exists>e. insert_genre_film_work cols new W = Inl e"
    if "rejected_column cols ''genre_film_work'' (genre_film_work_columns new) \<noteq> None
     \<or> gfw_id new = PNone
     \<or> (\<not> has_id gfw_id (genre_film_work W) new
         \<and> (list_ex (\<lambda>old. sql_eq (gfw_genre_id new) (gfw_genre_id old)
                           \<and> sql_eq (gfw_film_work_id new) (gfw_film_work_id old))
               (genre_film_work W)
            \<or> \<not> references (gfw_film_work_id new) (map fw_id (film_work W))
            \<or> \<not> references (gfw_genre_id new) (map g_id (genre W))))" for cols new W
    using insert_genre_film_work_spec(1) [of cols new W] that by blast
qed (use insert_genre_film_work_spec(2) in \<open>auto simp: genre_film_work_values_frame\<close>)

section \<open>Properties of the migration\<close>

lemma load_from_sqlite_unfold:
  "load_from_sqlite sqlite st =
     Some (fold save_genre_film_work (spec_batches (genre_film_work sqlite) 1000)
          (fold save_person_film_work (spec_batches (person_film_work sqlite) 1000)
          (fold save_film_works (spec_batches (film_work sqlite) 1000)
          (fold save_genres (spec_batches (genre sqlite) 1000)
          (fold save_persons (spec_batches (person sqlite) 1000) st)))))"
  by (simp add: load_from_sqlite_def load_data_1000)

lemma concat_batches_1000: "concat (spec_batches rows 1000) = rows"
  by (simp add: concat_spec_batches)

text \<open>
  Claim C5, amended. The first run starts on a connection with nothing pending and ends
  in \<open>st1\<close>; the second run starts on a fresh connection to the target that the first
  run produced. When the ids of the source are unique within each table, the second run
  leaves the content of the target identical: it commits no row. When the first run
  logged no row-level failure, every row of the source has its id in the target, and the
  second run changes nothing and logs nothing: every row takes the conflict path.
\<close>

theorem second_run_commits_nothing:
  assumes "clean (conn st)"
    and "load_from_sqlite sqlite st = Some st1"
    and "clean (conn st')"
    and "committed (conn st') = committed (conn st1)"
    and "columns (conn st') = columns (conn st)"
  shows "\<exists>st2. load_from_sqlite sqlite st' = Some st2
     \<and> (unique_ids sqlite \<longrightarrow> committed (conn st2) = committed (conn st1))
     \<and> (warnings st1 = warnings st
          \<longrightarrow> all_present sqlite (committed (conn st1))
              \<and> committed (conn st2) = committed (conn st1)
              \<and> conn st2 = conn st' \<and> warnings st2 = warnings st')"
proof -
  let ?bp = "spec_batches (person sqlite) 1000"
  let ?bg = "spec_batches (genre sqlite) 1000"
  let ?bf = "spec_batches (film_work sqlite) 1000"
  let ?bpf = "spec_batches (person_film_work sqlite) 1000"
  let ?bgf = "spec_batches (genre_film_work sqlite) 1000"
  define s1 where "s1 = fold save_persons ?bp st"
  define s2 where "s2 = fold save_genres ?bg s1"
  define s3 where "s3 = fold save_film_works ?bf s2"
  define s4 where "s4 = fold save_person_film_work ?bpf s3"
  define s5 where "s5 = fold save_genre_film_work ?bgf s4"
  define t1 where "t1 = fold save_persons ?bp st'"
  define t2 where "t2 = fold save_genres ?bg t1"
  define t3 where "t3 = fold save_film_works ?bf t2"
  define t4 where "t4 = fold save_person_film_work ?bpf t3"
  define t5 where "t5 = fold save_genre_film_work ?bgf t4"
  note P = save_person_writer save_persons_def
  note G = save_genre_writer save_genres_def
  note F = save_film_work_writer save_film_works_def
  note PF = save_person_film_work_row_writer save_person_film_work_def
  note GF = save_genre_film_work_row_writer save_genre_film_work_def
  have st1: "st1 = s5"
    using assms(2) by (simp add: load_from_sqlite_unfold s1_def s2_def s3_def s4_def s5_def)
  have run2: "load_from_sqlite sqlite st' = Some t5"
    by (simp add: load_from_sqlite_unfold t1_def t2_def t3_def t4_def t5_def)
  \<comment> \<open>the first run, table by table\<close>
  have c1: "clean (conn s1)" and k1: "columns (conn s1) = columns (conn st)"
    and l1: "length (warnings st) \<le> length (warnings s1)"
    unfolding s1_def by (rule table_facts [OF P assms(1)])+
  have c2: "clean (conn s2)" and k2: "columns (conn s2) = columns (conn s1)"
    and l2: "length (warnings s1) \<le> length (warnings s2)"
    unfolding s2_def by (rule table_facts [OF G c1])+
  have c3: "clean (conn s3)" and k3: "columns (conn s3) = columns (conn s2)"
    and l3: "length (warnings s2) \<le> length (warnings s3)"
    unfolding s3_def by (rule table_facts [OF F c2])+
  have c4: "clean (conn s4)" and k4: "columns (conn s4) = columns (conn s3)"
    and l4: "length (warnings s3) \<le> length (warnings s4)"
    unfolding s4_def by (rule table_facts [OF PF c3])+
  have l5: "length (warnings s4) \<le> length (warnings s5)"
    unfolding s5_def by (rule table_facts(3) [OF GF c4])
  have f1: "genre (committed (conn s1)) = genre (committed (conn st))"
    "film_work (committed (conn s1)) = film_work (committed (conn st))"
    using table_content [OF P assms(1), of ?bp] by (simp_all add: s1_def)
  have f2: "person (committed (conn s2)) = person (committed (conn s1))"
    "film_work (committed (conn s2)) = film_work (committed (conn s1))"
    using table_content [OF G c1, of ?bg] by (simp_all add: s2_def)
  have f3: "person (committed (conn s3)) = person (committed (conn s2))"
    "genre (committed (conn s3)) = genre (committed (conn s2))"
    using table_content [OF F c2, of ?bf] by (simp_all add: s3_def)
  have f4: "person (committed (conn s4)) = person (committed (conn s3))"
    "genre (committed (conn s4)) = genre (committed (conn s3))"
    "film_work (committed (conn s4)) = film_work (committed (conn s3))"
    using table_content [OF PF c3, of ?bpf] by (simp_all add: s4_def)
  have f5: "person (committed (conn s5)) = person (committed (conn s4))"
    "genre (committed (conn s5)) = genre (committed (conn s4))"
    "film_work (committed (conn s5)) = film_work (committed (conn s4))"
    "person_film_work (committed (conn s5)) = person_film_work (committed (conn s4))"
    using table_content [OF GF c4, of ?bgf] by (simp_all add: s5_def)
  have e: "committed (conn st') = committed (conn s5)" using assms(4) st1 by simp
  \<comment> \<open>unique ids: the second run commits nothing\<close>
  have again: "committed (conn t5) = committed (conn s5)" if u: "unique_ids sqlite"
  proof -
    have d: "distinct (map p_id (concat ?bp))" "distinct (map g_id (concat ?bg))"
      "distinct (map fw_id (concat ?bf))" "distinct (map pfw_id (concat ?bpf))"
      "distinct (map gfw_id (concat ?bgf))"
      using u by (simp_all add: unique_ids_def concat_batches_1000)
    have "person (committed (conn st')) = person (committed (conn (fold save_persons ?bp st)))"
      by (simp add: e f5 f4 f3 f2 s1_def [symmetric])
    then have a1: "committed (conn t1) = committed (conn st')"
      unfolding t1_def
      by (intro table_again [OF P assms(1) assms(3) assms(5) _ _ d(1)]) simp_all
    have ct1: "clean (conn t1)" and kt1: "columns (conn t1) = columns (conn st')"
      unfolding t1_def by (rule table_facts [OF P assms(3)])+
    have "genre (committed (conn t1)) = genre (committed (conn (fold save_genres ?bg s1)))"
      by (simp add: a1 e f5 f4 f3 s2_def [symmetric])
    then have a2: "committed (conn t2) = committed (conn t1)"
      unfolding t2_def
      by (intro table_again [OF G c1 ct1 _ _ _ d(2)]) (simp_all add: kt1 k1 assms(5))
    have ct2: "clean (conn t2)" and kt2: "columns (conn t2) = columns (conn t1)"
      unfolding t2_def by (rule table_facts [OF G ct1])+
    have "film_work (committed (conn t2))
        = film_work (committed (conn (fold save_film_works ?bf s2)))"
      by (simp add: a2 a1 e f5 f4 s3_def [symmetric])
    then have a3: "committed (conn t3) = committed (conn t2)"
      unfolding t3_def
      by (intro table_again [OF F c2 ct2 _ _ _ d(3)]) (simp_all add: kt2 kt1 k2 k1 assms(5))
    have ct3: "clean (conn t3)" and kt3: "columns (conn t3) = columns (conn t2)"
      unfolding t3_def by (rule table_facts [OF F ct2])+
    have "person_film_work (committed (conn t3))
        = person_film_work (committed (conn (fold save_person_film_work ?bpf s3)))"
      by (simp add: a3 a2 a1 e f5 s4_def [symmetric])
    moreover have "(map fw_id (film_work (committed (conn t3))),
          map p_id (person (committed (conn t3))))
        = (map fw_id (film_work (committed (conn s3))), map p_id (person (committed (conn s3))))"
      by (simp add: a3 a2 a1 e f5 f4)
    ultimately have a4: "committed (conn t4) = committed (conn t3)"
      unfolding t4_def
      by (intro table_again [OF PF c3 ct3 _ _ _ d(4)])
        (simp_all add: kt3 kt2 kt1 k3 k2 k1 assms(5))
    have ct4: "clean (conn t4)" and kt4: "columns (conn t4) = columns (conn t3)"
      unfolding t4_def by (rule table_facts [OF PF ct3])+
    have "genre_film_work (committed (conn t4))
        = genre_film_work (committed (conn (fold save_genre_film_work ?bgf s4)))"
      by (simp add: a4 a3 a2 a1 e s5_def [symmetric])
    moreover have "(map fw_id (film_work (committed (conn t4))),
          map g_id (genre (committed (conn t4))))
        = (map fw_id (film_work (committed (conn s4))), map g_id (genre (committed (conn s4))))"
      by (simp add: a4 a3 a2 a1 e f5)
    ultimately have a5: "committed (conn t5) = committed (conn t4)"
      unfolding t5_def
      by (intro table_again [OF GF c4 ct4 _ _ _ d(5)])
        (simp_all add: kt4 kt3 kt2 kt1 k4 k3 k2 k1 assms(5))
    show ?thesis by (simp add: a5 a4 a3 a2 a1 e)
  qed
  \<comment> \<open>no failure in the first run: every row takes the conflict path\<close>
  have quiet: "all_present sqlite (committed (conn s5))
      \<and> conn t5 = conn st' \<and> warnings t5 = warnings st'"
    if w: "warnings s5 = warnings st"
  proof -
    have len: "length (warnings s1) = length (warnings st)"
      "length (warnings s2) = length (warnings s1)"
      "length (warnings s3) = length (warnings s2)"
      "length (warnings s4) = length (warnings s3)"
      "length (warnings s5) = length (warnings s4)"
      using l1 l2 l3 l4 l5 w by simp_all
    have q1: "\<forall>r\<in>set (person sqlite). has_id p_id (person (committed (conn s1))) r
          \<and> \<not> refused_person (columns (conn st)) r"
      using table_quiet [OF P assms(1), of ?bp] len(1)
      by (simp add: s1_def [symmetric] concat_batches_1000)
    have q2: "\<forall>r\<in>set (genre sqlite). has_id g_id (genre (committed (conn s2))) r
          \<and> \<not> refused_genre (columns (conn s1)) r"
      using table_quiet [OF G c1, of ?bg] len(2)
      by (simp add: s2_def [symmetric] concat_batches_1000)
    have q3: "\<forall>r\<in>set (film_work sqlite). has_id fw_id (film_work (committed (conn s3))) r
          \<and> \<not> refused_film_work (columns (conn s2)) r"
      using table_quiet [OF F c2, of ?bf] len(3)
      by (simp add: s3_def [symmetric] concat_batches_1000)
    have q4: "\<forall>r\<in>set (person_film_work sqlite).
          has_id pfw_id (person_film_work (committed (conn s4))) r
          \<and> \<not> refused_person_film_work (columns (conn s3)) r"
      using table_quiet [OF PF c3, of ?bpf] len(4)
      by (simp add: s4_def [symmetric] concat_batches_1000)
    have q5: "\<forall>r\<in>set (genre_film_work sqlite).
          has_id gfw_id (genre_film_work (committed (conn s5))) r
          \<and> \<not> refused_genre_film_work (columns (conn s4)) r"
      using table_quiet [OF GF c4, of ?bgf] len(5)
      by (simp add: s5_def [symmetric] concat_batches_1000)
    have present: "all_present sqlite (committed (conn s5))"
      using q1 q2 q3 q4 q5 by (simp add: all_present_def list_all_iff f5 f4 f3 f2)
    have r1: "conn t1 = conn st' \<and> warnings t1 = warnings st'"
      unfolding t1_def using q1
      by (intro table_present [OF P assms(3)])
        (simp add: concat_batches_1000 e f5 f4 f3 f2 assms(5))
    have r2: "conn t2 = conn t1 \<and> warnings t2 = warnings t1"
      unfolding t2_def using q2 r1 assms(3)
      by (intro table_present [OF G])
        (simp_all add: concat_batches_1000 e f5 f4 f3 assms(5) k1)
    have r3: "conn t3 = conn t2 \<and> warnings t3 = warnings t2"
      unfolding t3_def using q3 r1 r2 assms(3)
      by (intro table_present [OF F])
        (simp_all add: concat_batches_1000 e f5 f4 assms(5) k1 k2)
    have r4: "conn t4 = conn t3 \<and> warnings t4 = warnings t3"
      unfolding t4_def using q4 r1 r2 r3 assms(3)
      by (intro table_present [OF PF])
        (simp_all add: concat_batches_1000 e f5 assms(5) k1 k2 k3)
    have r5: "conn t5 = conn t4 \<and> warnings t5 = warnings t4"
      unfolding t5_def using q5 r1 r2 r3 r4 assms(3)
      by (intro table_present [OF GF])
        (simp_all add: concat_batches_1000 e assms(5) k1 k2 k3 k4)
    show ?thesis using present r1 r2 r3 r4 r5 by simp
  qed
  show ?thesis
    using run2 again quiet e by (simp add: st1)
qed

lemma load_from_sqlite_facts:
  assumes "clean (conn st)" and "load_from_sqlite sqlite st = Some st1"
  shows "clean (conn st1)" and "columns (conn st1) = columns (conn st)"
proof -
  let ?s1 = "fold save_persons (spec_batches (person sqlite) 1000) st"
  let ?s2 = "fold save_genres (spec_batches (genre sqlite) 1000) ?s1"
  let ?s3 = "fold save_film_works (spec_batches (film_work sqlite) 1000) ?s2"
  let ?s4 = "fold save_person_film_work (spec_batches (person_film_work sqlite) 1000) ?s3"
  let ?s5 = "fold save_genre_film_work (spec_batches (genre_film_work sqlite) 1000) ?s4"
  have st1: "st1 = ?s5" using assms(2) by (simp add: load_from_sqlite_unfold)
  have c1: "clean (conn ?s1)" and k1: "columns (conn ?s1) = columns (conn st)"
    by (rule table_facts [OF save_person_writer save_persons_def assms(1)])+
  have c2: "clean (conn ?s2)" and k2: "columns (conn ?s2) = columns (conn ?s1)"
    by (rule table_facts [OF save_genre_writer save_genres_def c1])+
  have c3: "clean (conn ?s3)" and k3: "columns (conn ?s3) = columns (conn ?s2)"
    by (rule table_facts [OF save_film_work_writer save_film_works_def c2])+
  have c4: "clean (conn ?s4)" and k4: "columns (conn ?s4) = columns (conn ?s3)"
    by (rule table_facts [OF save_person_film_work_row_writer save_person_film_work_def c3])+
  have c5: "clean (conn ?s5)" and k5: "columns (conn ?s5) = columns (conn ?s4)"
    by (rule table_facts [OF save_genre_film_work_row_writer save_genre_film_work_def c4])+
  show "clean (conn st1)" using c5 st1 by simp
  show "columns (conn st1) = columns (conn st)" using k1 k2 k3 k4 k5 st1 by simp
qed

lemma initial_state_clean: "clean (conn (initial_state db))"
  by (simp add: initial_state_def connect_def clean_def)

lemma example_run:
  "load_from_sqlite sqlite (initial_state db)
     = Some (the (load_from_sqlite sqlite (initial_state db)))"
  by (simp add: load_from_sqlite_unfold)

lemma example_source_unique_ids: "unique_ids example_source"
  by code_simp

lemma example_valid_run_quiet:
  "warnings (the (load_from_sqlite example_source_valid (initial_state empty_database)))
     = warnings (initial_state empty_database)"
  by code_simp

theorem second_run_commits_nothing_witness:
  "(\<exists>st2. load_from_sqlite example_source
              (the (load_from_sqlite example_source (initial_state empty_database))) = Some st2
        \<and> committed (conn st2)
          = committed (conn (the (load_from_sqlite example_source (initial_state empty_database)))))
   \<and> all_present example_source_valid
       (committed (conn (the (load_from_sqlite example_source_valid (initial_state empty_database)))))
   \<and> (\<exists>st2. load_from_sqlite example_source_valid
               (the (load_from_sqlite example_source_valid (initial_state empty_database)))
             = Some st2
           \<and> committed (conn st2)
             = committed (conn (the (load_from_sqlite example_source_valid
                 (initial_state empty_database))))
           \<and> conn st2
             = conn (the (load_from_sqlite example_source_valid (initial_state empty_database)))
           \<and> warnings st2
             = warnings (the (load_from_sqlite example_source_valid
                 (initial_state empty_database))))"
proof -
  note a = load_from_sqlite_facts [OF initial_state_clean example_run]
  have "\<exists>st2. load_from_sqlite example_source
              (the (load_from_sqlite example_source (initial_state empty_database))) = Some st2
        \<and> committed (conn st2)
          = committed (conn (the (load_from_sqlite example_source (initial_state empty_database))))"
    using second_run_commits_nothing [OF initial_state_clean example_run a(1) refl a(2),
        of example_source empty_database] example_source_unique_ids
    by blast
  moreover have "all_present example_source_valid
       (committed (conn (the (load_from_sqlite example_source_valid (initial_state empty_database)))))
   \<and> (\<exists>st2. load_from_sqlite example_source_valid
               (the (load_from_sqlite example_source_valid (initial_state empty_database)))
             = Some st2
           \<and> committed (conn st2)
             = committed (conn (the (load_from_sqlite example_source_valid
                 (initial_state empty_database))))
           \<and> conn st2
             = conn (the (load_from_sqlite example_source_valid (initial_state empty_database)))
           \<and> warnings st2
             = warnings (the (load_from_sqlite example_source_valid
                 (initial_state empty_database))))"
    using second_run_commits_nothing [OF initial_state_clean example_run a(1) refl a(2),
        of example_source_valid empty_database] example_valid_run_quiet
    by blast
  ultimately show ?thesis by blast
qed

text \<open>
  Claim C5, as stated, fails: in the example the first run loses the batch of person
  links, so the second run does not find their ids in the target; it attempts the rows
  again and logs the same two failures again instead of skipping every row.
\<close>

theorem second_run_counterexample:
  "warnings (the (load_from_sqlite example_source (initial_state empty_database)))
     = [Error_inserting ''person_film_work'' (PStr ''A2'') (ForeignKeyViolation ''film_work_id''),
        Error_inserting ''person_film_work'' (PStr ''A3'') InFailedSqlTransaction]
   \<and> warnings (the (load_from_sqlite example_source
        (the (load_from_sqlite example_source (initial_state empty_database)))))
     = [Error_inserting ''person_film_work'' (PStr ''A2'') (ForeignKeyViolation ''film_work_id''),
        Error_inserting ''person_film_work'' (PStr ''A3'') InFailedSqlTransaction,
        Error_inserting ''person_film_work'' (PStr ''A2'') (ForeignKeyViolation ''film_work_id''),
        Error_inserting ''person_film_work'' (PStr ''A3'') InFailedSqlTransaction]
   \<and> \<not> all_present example_source
        (committed (conn (the (load_from_sqlite example_source (initial_state empty_database)))))"
  by code_simp

text \<open>
  Claim C2 on the code. In the example the second of three person links names a film work
  that does not exist. Its failure aborts the transaction, the third row is refused, and
  the commit keeps nothing: none of the three rows reaches the target, although rows 1
  and 3 are valid. The run itself proceeds, and the genre link of the next table is
  committed.
\<close>

theorem failed_row_loses_the_batch:
  "load_from_sqlite example_source (initial_state empty_database) \<noteq> None
   \<and> person_film_work
       (committed (conn (the (load_from_sqlite example_source (initial_state empty_database)))))
     = []
   \<and> genre_film_work
       (committed (conn (the (load_from_sqlite example_source (initial_state empty_database)))))
     = [example_genre_film_work]
   \<and> warnings (the (load_from_sqlite example_source (initial_state empty_database)))
     = [Error_inserting ''person_film_work'' (PStr ''A2'') (ForeignKeyViolation ''film_work_id''),
        Error_inserting ''person_film_work'' (PStr ''A3'') InFailedSqlTransaction]"
  by code_simp










text \<open>
  Claim C7 on the code. A person whose \<^verbatim>\<open>created\<close> is the empty string has a
  \<^verbatim>\<open>created\<close> that is not \<^verbatim>\<open>NULL\<close>; the loop body of \<^verbatim>\<open>save_persons\<close> does not pass it
  on unchanged but replaces it by a reading of the clock, which is what reaches the
  target, without a warning. The loop bodies of the two link tables pass the same value
  on unchanged, and a rating of \<open>0.0\<close>, equally false in Python, is passed on unchanged.
\<close>

theorem empty_created_is_replaced_by_the_clock:
  "p_created example_person_empty_created = PStr []
   \<and> p_created example_person_empty_created \<noteq> PNone
   \<and> p_created (fst (person_values example_person_empty_created (initial_state empty_database)))
     = PDateTime (example_clock 0)
   \<and> person (committed (conn (save_persons [example_person_empty_created]
        (initial_state empty_database))))
     = [example_person_empty_created\<lparr>p_created := PDateTime (example_clock 0)\<rparr>]
   \<and> warnings (save_persons [example_person_empty_created] (initial_state empty_database)) = []
   \<and> pfw_created (fst (person_film_work_values
        ((example_person_film_work ''A1'' ''F1'')\<lparr>pfw_created := PStr []\<rparr>)
        (initial_state empty_database))) = PStr []
   \<and> gfw_created (fst (genre_film_work_values (example_genre_film_work\<lparr>gfw_created := PStr []\<rparr>)
        (initial_state empty_database))) = PStr []
   \<and> fw_rating (fst (film_work_values ((example_film_work ''F1'')\<lparr>fw_rating := PFloat 0\<rparr>)
        (initial_state empty_database))) = PFloat 0"
  by code_simp

end
